theory Spec2Isabelle
  imports Complex_Main "HOL-Library.Sublist"
begin

section \<open>The fine-tuning script \<^verbatim>\<open>training/finetune.py\<close>\<close>

text \<open>
  The script reads a JSON-lines file of prompt/completion pairs, turns every usable line
  into one chat-formatted training string, and hands the resulting dataset to external
  libraries for training and export. This theory embeds the script's own logic: the
  dataset loader \<^verbatim>\<open>load_dataset\<close>, the decisions of \<^verbatim>\<open>train\<close>, and the control flow and
  file-system effects of \<^verbatim>\<open>main\<close>. Calls into libraries (\<^verbatim>\<open>json.loads\<close>, the model and
  trainer objects, \<^verbatim>\<open>train_test_split\<close>, \<^verbatim>\<open>json.dump\<close>) are parameters of the model;
  \<^verbatim>\<open>Dataset.from_list\<close> is modelled with the one error it has on a list of strings.
\<close>

subsection \<open>Python strings and values\<close>

text \<open>
  A Python \<^verbatim>\<open>str\<close> is a sequence of Unicode code points; it is modelled as a list of
  natural numbers, one per code point. \<open>cp\<close> turns an ASCII literal into that form.
\<close>

type_synonym pystr = "nat list"

definition cp :: "string \<Rightarrow> pystr" where
  "cp s = map of_char s"

text \<open>
  \<^verbatim>\<open>str.isspace\<close> for one code point: the characters \<^verbatim>\<open>str.strip()\<close> removes when it is
  called without an argument.
\<close>

definition is_space :: "nat \<Rightarrow> bool" where
  "is_space c \<longleftrightarrow>
     (9 \<le> c \<and> c \<le> 13) \<or> (28 \<le> c \<and> c \<le> 32) \<or> c = 133 \<or> c = 160 \<or> c = 5760 \<or>
     (8192 \<le> c \<and> c \<le> 8202) \<or> c = 8232 \<or> c = 8233 \<or> c = 8239 \<or> c = 8287 \<or> c = 12288"

definition py_strip :: "pystr \<Rightarrow> pystr" where
  "py_strip s = rev (dropWhile is_space (rev (dropWhile is_space s)))"

text \<open>
  \<^verbatim>\<open>s.replace(old, new)\<close>: scanning from the left, every occurrence of \<open>old\<close> that does
  not overlap an occurrence already replaced is replaced by \<open>new\<close>. With an empty \<open>old\<close>
  Python inserts \<open>new\<close> before every character and at the end.
\<close>

function str_replace :: "'a list \<Rightarrow> 'a list \<Rightarrow> 'a list \<Rightarrow> 'a list" where
  "str_replace old new [] = (if old = [] then new else [])"
| "str_replace old new (c # cs) =
     (if old = [] then new @ c # str_replace old new cs
      else if prefix old (c # cs) then new @ str_replace old new (drop (length old) (c # cs))
      else c # str_replace old new cs)"
  by pat_completeness auto
termination
  by (relation "measure (\<lambda>(old, new, s). length s)") auto

text \<open>The values \<^verbatim>\<open>json.loads\<close> can return, and the exceptions the model distinguishes.\<close>

datatype pyfloat = FloatFinite rat | FloatInf bool | FloatNaN

datatype pyval =
    PyNone
  | PyBool bool
  | PyInt int
  | PyFloat pyfloat
  | PyStr pystr
  | PyList "pyval list"
  | PyDict "(pystr \<times> pyval) list"

datatype py_error =
    JSONDecodeError
  | AttributeError
  | FileNotFoundError
  | IsADirectoryError
  | FileExistsError
  | NotADirectoryError
  | UnicodeEncodeError
  | LibraryError

text \<open>Truth value testing, as \<^verbatim>\<open>if prompt and completion\<close> applies it.\<close>

fun truthy :: "pyval \<Rightarrow> bool" where
  "truthy PyNone = False"
| "truthy (PyBool b) = b"
| "truthy (PyInt i) = (i \<noteq> 0)"
| "truthy (PyFloat f) = (f \<noteq> FloatFinite 0)"
| "truthy (PyStr s) = (s \<noteq> [])"
| "truthy (PyList xs) = (xs \<noteq> [])"
| "truthy (PyDict kvs) = (kvs \<noteq> [])"

text \<open>
  \<^verbatim>\<open>item.get(key, default)\<close>. Only a dict has the method; on any other value the attribute
  lookup raises \<^verbatim>\<open>AttributeError\<close>. A \<open>PyDict\<close> lists the items of the dict, each key once.
\<close>

fun py_get :: "pyval \<Rightarrow> pystr \<Rightarrow> pyval \<Rightarrow> py_error + pyval" where
  "py_get (PyDict kvs) k d = Inr (case map_of kvs k of Some v \<Rightarrow> v | None \<Rightarrow> d)"
| "py_get _ k d = Inl AttributeError"

subsection \<open>The dataset loader\<close>

text \<open>The four role labels of lines 82 and 83, as code points.\<close>

definition label_user_zh :: pystr where
  "label_user_zh = [29992, 25143, 58, 32]"

definition label_user_en :: pystr where
  "label_user_en = cp ''User: ''"

definition label_assistant_zh :: pystr where
  "label_assistant_zh = [21161, 25163, 58, 32]"

definition label_assistant_en :: pystr where
  "label_assistant_en = cp ''Assistant: ''"

text \<open>
  Line 82, \<^verbatim>\<open>prompt.replace("<zh user label>", "").replace("User: ", "")\<close>, and line 83, the
  same for the completion with the two assistant labels.
\<close>

definition clean_prompt :: "pystr \<Rightarrow> pystr" where
  "clean_prompt p = str_replace label_user_en [] (str_replace label_user_zh [] p)"

definition clean_completion :: "pystr \<Rightarrow> pystr" where
  "clean_completion c = str_replace label_assistant_en [] (str_replace label_assistant_zh [] c)"

text \<open>The f-string of line 85; 10 is the newline.\<close>

definition chat_text :: "pystr \<Rightarrow> pystr \<Rightarrow> pystr" where
  "chat_text prompt completion =
     cp ''<|im_start|>user'' @ [10] @ prompt @ cp ''<|im_end|>'' @ [10] @
     cp ''<|im_start|>assistant'' @ [10] @ completion @ cp ''<|im_end|>''"

text \<open>
  Lines 82 to 85 on the two values that passed the truth test. \<^verbatim>\<open>.replace\<close> exists on a
  \<^verbatim>\<open>str\<close> only: a truthy value of another type (a number, a list, a dict, \<^verbatim>\<open>True\<close>)
  raises \<^verbatim>\<open>AttributeError\<close> at its first \<^verbatim>\<open>.replace\<close>.
\<close>

fun make_text :: "pyval \<Rightarrow> pyval \<Rightarrow> py_error + pystr" where
  "make_text (PyStr p) (PyStr c) = Inr (chat_text (clean_prompt p) (clean_completion c))"
| "make_text _ _ = Inl AttributeError"

text \<open>
  One iteration of the loop of lines 72 to 86, on the list \<open>data\<close> built so far. The
  decoder \<^verbatim>\<open>json.loads\<close> is the parameter \<open>json_loads\<close>; \<open>Inl\<close> is the exception it
  raises. Nothing in the loop catches an exception. An element of \<open>data\<close> stands for the
  row \<^verbatim>\<open>{"text": text}\<close>.
\<close>

definition loop_body ::
  "(pystr \<Rightarrow> py_error + pyval) \<Rightarrow> pystr list \<Rightarrow> pystr \<Rightarrow> py_error + pystr list" where
  "loop_body json_loads data raw =
     (let line = py_strip raw in
      if line = [] then Inr data
      else
        case json_loads line of
          Inl e \<Rightarrow> Inl e
        | Inr item \<Rightarrow>
            (case py_get item (cp ''prompt'') (PyStr []) of
               Inl e \<Rightarrow> Inl e
             | Inr prompt \<Rightarrow>
                 (case py_get item (cp ''completion'') (PyStr []) of
                    Inl e \<Rightarrow> Inl e
                  | Inr completion \<Rightarrow>
                      if truthy prompt \<and> truthy completion then
                        (case make_text prompt completion of
                           Inl e \<Rightarrow> Inl e
                         | Inr text \<Rightarrow> Inr (data @ [text]))
                      else Inr data)))"

fun load_loop ::
  "(pystr \<Rightarrow> py_error + pyval) \<Rightarrow> pystr list \<Rightarrow> pystr list \<Rightarrow> py_error + pystr list" where
  "load_loop json_loads data [] = Inr data"
| "load_loop json_loads data (raw # rest) =
     (case loop_body json_loads data raw of
        Inl e \<Rightarrow> Inl e
      | Inr data' \<Rightarrow> load_loop json_loads data' rest)"

text \<open>
  \<^verbatim>\<open>Dataset.from_list(data)\<close> (line 89) builds an Arrow table, which stores a string as
  UTF-8. A text that holds a lone surrogate (U+D800 to U+DFFF) cannot be encoded, and the
  call raises \<^verbatim>\<open>UnicodeEncodeError\<close>. Otherwise the dataset holds the rows in the order of the
  list; it is modelled as the list.
\<close>

definition is_surrogate :: "nat \<Rightarrow> bool" where
  "is_surrogate c \<longleftrightarrow> 55296 \<le> c \<and> c \<le> 57343"

definition dataset_from_list :: "pystr list \<Rightarrow> py_error + pystr list" where
  "dataset_from_list data =
     (if list_ex (list_ex is_surrogate) data then Inl UnicodeEncodeError else Inr data)"

text \<open>
  \<^verbatim>\<open>load_dataset\<close> on the lines that iterating the opened file yields: the loop, then
  \<^verbatim>\<open>Dataset.from_list\<close> on the list it built.
\<close>

definition load_dataset :: "(pystr \<Rightarrow> py_error + pyval) \<Rightarrow> pystr list \<Rightarrow> py_error + pystr list" where
  "load_dataset json_loads file_lines =
     (case load_loop json_loads [] file_lines of
        Inl e \<Rightarrow> Inl e
      | Inr data \<Rightarrow> dataset_from_list data)"

subsection \<open>Command-line arguments and the training setup\<close>

text \<open>The namespace \<^verbatim>\<open>parse_args\<close> returns; \<^verbatim>\<open>--gguf-output\<close> defaults to \<^verbatim>\<open>None\<close>.\<close>

record args =
  arg_data :: pystr
  arg_output :: pystr
  arg_model :: pystr
  arg_epochs :: int
  arg_batch_size :: int
  arg_learning_rate :: pyfloat
  arg_max_length :: int
  arg_lora_r :: int
  arg_export_gguf :: bool
  arg_gguf_output :: "pystr option"
  arg_lr_scheduler :: pystr
  arg_early_stopping_patience :: int

datatype device = Cuda | Mps | Cpu

text \<open>
  The keyword arguments of \<^verbatim>\<open>TrainingArguments\<close> (lines 156 to 175). \<open>ta_eval\<close> holds the
  three conditional ones of line 174, \<^verbatim>\<open>eval_strategy\<close>, \<^verbatim>\<open>eval_steps\<close> and
  \<^verbatim>\<open>load_best_model_at_end\<close>, when they are passed.
\<close>

record training_arguments =
  ta_output_dir :: pystr
  ta_num_train_epochs :: int
  ta_per_device_train_batch_size :: int
  ta_gradient_accumulation_steps :: int
  ta_learning_rate :: pyfloat
  ta_weight_decay :: pyfloat
  ta_warmup_ratio :: pyfloat
  ta_lr_scheduler_type :: pystr
  ta_logging_steps :: int
  ta_save_steps :: int
  ta_save_total_limit :: int
  ta_fp16 :: bool
  ta_bf16 :: bool
  ta_gradient_checkpointing :: bool
  ta_optim :: pystr
  ta_report_to :: pystr
  ta_remove_unused_columns :: bool
  ta_eval :: "(pystr \<times> int \<times> bool) option"

datatype callback = EarlyStoppingCallback int

text \<open>The keyword arguments of \<^verbatim>\<open>SFTTrainer\<close> (lines 181 to 191), model and tokenizer apart.\<close>

record sft_trainer =
  tr_args :: training_arguments
  tr_train_dataset :: "pystr list"
  tr_eval_dataset :: "pystr list option"
  tr_max_seq_length :: int
  tr_dataset_text_field :: pystr
  tr_packing :: bool
  tr_callbacks :: "callback list option"

text \<open>
  \<^verbatim>\<open>if eval_dataset\<close>: \<^verbatim>\<open>None\<close> is false, and a dataset is true when its length is not zero.
\<close>

fun dataset_truthy :: "pystr list option \<Rightarrow> bool" where
  "dataset_truthy None = False"
| "dataset_truthy (Some d) = (d \<noteq> [])"

text \<open>
  The part of \<^verbatim>\<open>train\<close> that decides (lines 150 to 191): the split, the training
  arguments, the callbacks and the trainer's arguments. The library's
  \<^verbatim>\<open>dataset.train_test_split(test_size, seed)\<close> is the parameter \<open>split\<close>; it returns the
  pair of \<^verbatim>\<open>split["train"]\<close> and \<^verbatim>\<open>split["test"]\<close>, or raises. The literal \<^verbatim>\<open>0.1\<close> is written
  as the fraction \<open>1 / 10\<close>.
\<close>

definition train_setup ::
  "(pystr list \<Rightarrow> rat \<Rightarrow> int \<Rightarrow> py_error + pystr list \<times> pystr list) \<Rightarrow>
   pystr list \<Rightarrow> args \<Rightarrow> pystr \<Rightarrow> py_error + sft_trainer" where
  "train_setup split dataset a output_dir =
     (case (if length dataset > 20
            then (case split dataset (1 / 10) 42 of
                    Inl e \<Rightarrow> Inl e
                  | Inr (tr, te) \<Rightarrow> Inr (tr, Some te))
            else Inr (dataset, None)) of
        Inl e \<Rightarrow> Inl e
      | Inr (dataset', eval_dataset) \<Rightarrow>
          let training_args = \<lparr>
                ta_output_dir = output_dir,
                ta_num_train_epochs = arg_epochs a,
                ta_per_device_train_batch_size = arg_batch_size a,
                ta_gradient_accumulation_steps = 4,
                ta_learning_rate = arg_learning_rate a,
                ta_weight_decay = FloatFinite (1 / 100),
                ta_warmup_ratio = FloatFinite (1 / 10),
                ta_lr_scheduler_type = arg_lr_scheduler a,
                ta_logging_steps = 10,
                ta_save_steps = 100,
                ta_save_total_limit = 2,
                ta_fp16 = False,
                ta_bf16 = False,
                ta_gradient_checkpointing = True,
                ta_optim = cp ''adamw_torch'',
                ta_report_to = cp ''none'',
                ta_remove_unused_columns = False,
                ta_eval = (if dataset_truthy eval_dataset then Some (cp ''steps'', 50, True) else None) \<rparr>;
              callbacks =
                (if dataset_truthy eval_dataset
                 then [EarlyStoppingCallback (arg_early_stopping_patience a)] else [])
          in Inr \<lparr>
               tr_args = training_args,
               tr_train_dataset = dataset',
               tr_eval_dataset = eval_dataset,
               tr_max_seq_length = arg_max_length a,
               tr_dataset_text_field = cp ''text'',
               tr_packing = False,
               tr_callbacks = (if callbacks \<noteq> [] then Some callbacks else None) \<rparr>)"

subsection \<open>The process: file system, standard output and library calls\<close>

text \<open>
  The mapping of lines 269 to 277 that \<^verbatim>\<open>json.dump\<close> writes to \<^verbatim>\<open>config.json\<close>, with its keys
  as field names.
\<close>

record run_config =
  base_model :: pystr
  timestamp :: pystr
  epochs :: int
  learning_rate :: pyfloat
  lora_r :: int
  train_samples :: nat
  device :: device

text \<open>The keyword arguments of \<^verbatim>\<open>LoraConfig\<close> (lines 132 to 139).\<close>

record lora_config =
  lc_task_type :: pystr
  lc_r :: int
  lc_lora_alpha :: int
  lc_lora_dropout :: pyfloat
  lc_target_modules :: "pystr list"
  lc_bias :: pystr

text \<open>
  The library entry points the script calls, in the order of the source. The constructors
  \<^verbatim>\<open>TrainingArguments\<close>, \<^verbatim>\<open>EarlyStoppingCallback\<close> and \<^verbatim>\<open>SFTTrainer\<close> are the one step
  \<open>SFTTrainer_init\<close>; the flag of \<open>Model_from_pretrained\<close> is the 4-bit path of line 114.
\<close>

datatype lib_call =
    Tokenizer_from_pretrained pystr
  | Model_from_pretrained pystr bool
  | Get_peft_model lora_config
  | Print_trainable_parameters
  | SFTTrainer_init sft_trainer
  | Trainer_train
  | Trainer_evaluate
  | Merge_and_unload
  | Model_save_pretrained pystr
  | Tokenizer_save_pretrained pystr

text \<open>One constructor per \<^verbatim>\<open>print\<close> of the source, with the values it interpolates.\<close>

datatype message =
    Msg_data_file_missing pystr
  | Msg_rule
  | Msg_title
  | Msg_data_file pystr
  | Msg_output_dir pystr
  | Msg_base_model pystr
  | Msg_loaded nat
  | Msg_no_valid_data
  | Msg_loading_model pystr
  | Msg_device device
  | Msg_start_training
  | Msg_epochs int
  | Msg_batch_size int
  | Msg_learning_rate pyfloat
  | Msg_lr_scheduler pystr
  | Msg_train_size nat
  | Msg_eval_size nat
  | Msg_blank
  | Msg_final_train_loss
  | Msg_final_eval_loss
  | Msg_merging
  | Msg_saving_to pystr
  | Msg_gguf_needs_tool
  | Msg_gguf_run_manually
  | Msg_gguf_command pystr pystr
  | Msg_done
  | Msg_saved_at pystr

text \<open>
  A file is the lines that iterating it in text mode yields, or the JSON document of a
  \<open>run_config\<close>. Paths are compared as strings.
\<close>

datatype file_content = TextLines "pystr list" | JsonDump run_config

record world =
  fs_files :: "pystr \<rightharpoonup> file_content"
  fs_dirs :: "pystr set"
  printed :: "message list"
  lib_calls :: "lib_call list"

text \<open>
  What the script cannot decide by itself: the clock, the accelerators, the decoder
  \<^verbatim>\<open>json.loads\<close>, the library's \<^verbatim>\<open>train_test_split\<close>, which library calls raise, and the text
  \<^verbatim>\<open>json.dump\<close> renders.
\<close>

record env =
  env_now :: pystr
  env_cuda :: bool
  env_mps :: bool
  env_json_loads :: "pystr \<Rightarrow> py_error + pyval"
  env_split :: "pystr list \<Rightarrow> rat \<Rightarrow> int \<Rightarrow> py_error + pystr list \<times> pystr list"
  env_lib_raises :: "lib_call \<Rightarrow> py_error option"
  env_json_text :: "run_config \<Rightarrow> pystr list"

text \<open>
  A step of the script takes the world and returns the new one, with a value, or with the
  reason it stopped: \<^verbatim>\<open>sys.exit(n)\<close> or an exception nothing catches.
\<close>

datatype stop = SysExit int | Raised py_error

type_synonym 'a prog = "world \<Rightarrow> (stop + 'a) \<times> world"

definition ret :: "'a \<Rightarrow> 'a prog" where
  "ret x w = (Inr x, w)"

definition and_then :: "'a prog \<Rightarrow> ('a \<Rightarrow> 'b prog) \<Rightarrow> 'b prog" where
  "and_then m f w = (case m w of (Inl s, w') \<Rightarrow> (Inl s, w') | (Inr x, w') \<Rightarrow> f x w')"

definition sys_exit :: "int \<Rightarrow> 'a prog" where
  "sys_exit n w = (Inl (SysExit n), w)"

definition lift :: "py_error + 'a \<Rightarrow> 'a prog" where
  "lift r w = (case r of Inl e \<Rightarrow> (Inl (Raised e), w) | Inr x \<Rightarrow> (Inr x, w))"

definition py_print :: "message \<Rightarrow> unit prog" where
  "py_print m w = (Inr (), w\<lparr>printed := printed w @ [m]\<rparr>)"

fun py_print_all :: "message list \<Rightarrow> unit prog" where
  "py_print_all [] = ret ()"
| "py_print_all (m # ms) = and_then (py_print m) (\<lambda>_. py_print_all ms)"

definition lib :: "env \<Rightarrow> lib_call \<Rightarrow> unit prog" where
  "lib e c w =
     (let w' = w\<lparr>lib_calls := lib_calls w @ [c]\<rparr> in
      case env_lib_raises e c of Some err \<Rightarrow> (Inl (Raised err), w') | None \<Rightarrow> (Inr (), w'))"

text \<open>\<^verbatim>\<open>os.path.join\<close> of two components (47 is the slash), and \<^verbatim>\<open>os.path.exists\<close>.\<close>

definition path_join :: "pystr \<Rightarrow> pystr \<Rightarrow> pystr" where
  "path_join a b =
     (if b \<noteq> [] \<and> hd b = 47 then b
      else if a = [] \<or> last a = 47 then a @ b
      else a @ [47] @ b)"

definition path_exists :: "world \<Rightarrow> pystr \<Rightarrow> bool" where
  "path_exists w p \<longleftrightarrow> p \<in> dom (fs_files w) \<or> p \<in> fs_dirs w"

text \<open>
  \<^verbatim>\<open>os.makedirs(p, exist_ok=True)\<close>: the directory and the directories above it exist
  afterwards; a file in the way is an error.
\<close>

definition ancestors :: "pystr \<Rightarrow> pystr list" where
  "ancestors p = [take i p. i \<leftarrow> [1..<length p], p ! i = 47]"

definition os_makedirs :: "pystr \<Rightarrow> unit prog" where
  "os_makedirs p w =
     (if p \<in> dom (fs_files w) then (Inl (Raised FileExistsError), w)
      else if list_ex (\<lambda>q. q \<in> dom (fs_files w)) (ancestors p)
        then (Inl (Raised NotADirectoryError), w)
      else (Inr (), w\<lparr>fs_dirs := fs_dirs w \<union> set (ancestors p) \<union> {p}\<rparr>))"

text \<open>\<^verbatim>\<open>open(p, "r", encoding="utf-8")\<close> and the iteration over the file.\<close>

definition open_read :: "env \<Rightarrow> pystr \<Rightarrow> pystr list prog" where
  "open_read e p w =
     (case fs_files w p of
        Some (TextLines ls) \<Rightarrow> (Inr ls, w)
      | Some (JsonDump c) \<Rightarrow> (Inr (env_json_text e c), w)
      | None \<Rightarrow> (Inl (Raised (if p \<in> fs_dirs w then IsADirectoryError else FileNotFoundError)), w))"

text \<open>\<^verbatim>\<open>open(p, "w")\<close> followed by \<^verbatim>\<open>json.dump(config, f, ...)\<close> (lines 278 and 279).\<close>

definition write_json :: "pystr \<Rightarrow> run_config \<Rightarrow> unit prog" where
  "write_json p c w =
     (if p \<in> fs_dirs w then (Inl (Raised IsADirectoryError), w)
      else (Inr (), w\<lparr>fs_files := (fs_files w)(p \<mapsto> JsonDump c)\<rparr>))"

text \<open>
  \<^verbatim>\<open>load_dataset(data_path)\<close> as \<^verbatim>\<open>main\<close> calls it: the file is opened, the loop runs, the
  count is printed (line 88).
\<close>

definition load_dataset_from :: "env \<Rightarrow> pystr \<Rightarrow> pystr list prog" where
  "load_dataset_from e data_path =
     and_then (open_read e data_path) (\<lambda>file_lines.
     and_then (lift (load_dataset (env_json_loads e) file_lines)) (\<lambda>data.
     and_then (py_print (Msg_loaded (length data))) (\<lambda>_.
     ret data)))"

text \<open>
  \<^verbatim>\<open>setup_model\<close> (lines 92 to 127). The assignment of \<^verbatim>\<open>pad_token\<close> changes the tokenizer
  object only and has no counterpart here.
\<close>

definition setup_model :: "env \<Rightarrow> pystr \<Rightarrow> device \<Rightarrow> unit prog" where
  "setup_model e model_name dev =
     and_then (py_print (Msg_loading_model model_name)) (\<lambda>_.
     and_then (py_print (Msg_device dev)) (\<lambda>_.
     and_then (lib e (Tokenizer_from_pretrained model_name)) (\<lambda>_.
     lib e (Model_from_pretrained model_name (dev \<noteq> Cpu)))))"

definition setup_lora :: "env \<Rightarrow> int \<Rightarrow> unit prog" where
  "setup_lora e r =
     and_then (lib e (Get_peft_model \<lparr>
        lc_task_type = cp ''CAUSAL_LM'',
        lc_r = r,
        lc_lora_alpha = r * 2,
        lc_lora_dropout = FloatFinite (5 / 100),
        lc_target_modules = [cp ''q_proj'', cp ''k_proj'', cp ''v_proj'', cp ''o_proj''],
        lc_bias = cp ''none'' \<rparr>)) (\<lambda>_.
     lib e Print_trainable_parameters)"

text \<open>\<^verbatim>\<open>train\<close> (lines 147 to 210): the setup above, then the library's trainer.\<close>

definition train :: "env \<Rightarrow> pystr list \<Rightarrow> args \<Rightarrow> pystr \<Rightarrow> sft_trainer prog" where
  "train e dataset a output_dir =
     and_then (lift (train_setup (env_split e) dataset a output_dir)) (\<lambda>trainer.
     and_then (lib e (SFTTrainer_init trainer)) (\<lambda>_.
     and_then (py_print_all [
        Msg_start_training,
        Msg_epochs (arg_epochs a),
        Msg_batch_size (arg_batch_size a),
        Msg_learning_rate (arg_learning_rate a),
        Msg_lr_scheduler (arg_lr_scheduler a),
        Msg_train_size (length (tr_train_dataset trainer))]) (\<lambda>_.
     and_then (case tr_eval_dataset trainer of
                 Some ev \<Rightarrow> if ev \<noteq> [] then py_print (Msg_eval_size (length ev)) else ret ()
               | None \<Rightarrow> ret ()) (\<lambda>_.
     and_then (py_print Msg_blank) (\<lambda>_.
     and_then (lib e Trainer_train) (\<lambda>_.
     and_then (py_print Msg_final_train_loss) (\<lambda>_.
     and_then (if dataset_truthy (tr_eval_dataset trainer)
               then and_then (lib e Trainer_evaluate) (\<lambda>_. py_print Msg_final_eval_loss)
               else ret ()) (\<lambda>_.
     ret trainer))))))))"

text \<open>\<^verbatim>\<open>export_model\<close> (lines 213 to 230); \<open>gguf_path\<close> is \<^verbatim>\<open>None\<close> or a string.\<close>

definition export_model :: "env \<Rightarrow> pystr \<Rightarrow> pystr option \<Rightarrow> pystr prog" where
  "export_model e output_dir gguf_path =
     (let merged_dir = path_join output_dir (cp ''merged'') in
      and_then (os_makedirs merged_dir) (\<lambda>_.
      and_then (py_print Msg_merging) (\<lambda>_.
      and_then (lib e Merge_and_unload) (\<lambda>_.
      and_then (py_print (Msg_saving_to merged_dir)) (\<lambda>_.
      and_then (lib e (Model_save_pretrained merged_dir)) (\<lambda>_.
      and_then (lib e (Tokenizer_save_pretrained merged_dir)) (\<lambda>_.
      and_then (case gguf_path of
                  Some g \<Rightarrow>
                    if g \<noteq> [] then
                      py_print_all [Msg_gguf_needs_tool, Msg_gguf_run_manually,
                                    Msg_gguf_command merged_dir g]
                    else ret ()
                | None \<Rightarrow> ret ()) (\<lambda>_.
      ret merged_dir))))))))"

text \<open>\<^verbatim>\<open>main\<close> (lines 233 to 284), after \<^verbatim>\<open>parse_args\<close> has returned \<open>a\<close>.\<close>

definition main :: "env \<Rightarrow> args \<Rightarrow> unit prog" where
  "main e a w0 =
     (if \<not> path_exists w0 (arg_data a) then
        and_then (py_print (Msg_data_file_missing (arg_data a))) (\<lambda>_. sys_exit 1) w0
      else
        (let ts = env_now e;
             output_dir = path_join (arg_output a) (cp ''finetune_'' @ ts);
             dev = (if env_cuda e then Cuda else if env_mps e then Mps else Cpu)
         in
         and_then (os_makedirs output_dir) (\<lambda>_.
         and_then (py_print_all [Msg_rule, Msg_title, Msg_rule, Msg_data_file (arg_data a),
                                 Msg_output_dir output_dir, Msg_base_model (arg_model a),
                                 Msg_rule]) (\<lambda>_.
         and_then (load_dataset_from e (arg_data a)) (\<lambda>dataset.
         if length dataset = 0 then
           and_then (py_print Msg_no_valid_data) (\<lambda>_. sys_exit 1)
         else
           and_then (setup_model e (arg_model a) dev) (\<lambda>_.
           and_then (setup_lora e (arg_lora_r a)) (\<lambda>_.
           and_then (train e dataset a output_dir) (\<lambda>_.
           let gguf_path =
                 (case arg_gguf_output a of
                    Some g \<Rightarrow> if g \<noteq> [] then g else path_join output_dir (cp ''model.gguf'')
                  | None \<Rightarrow> path_join output_dir (cp ''model.gguf''))
           in
           and_then (export_model e output_dir
                       (if arg_export_gguf a then Some gguf_path else None)) (\<lambda>_.
           let config = \<lparr>
                 base_model = arg_model a,
                 timestamp = ts,
                 epochs = arg_epochs a,
                 learning_rate = arg_learning_rate a,
                 lora_r = arg_lora_r a,
                 train_samples = length dataset,
                 device = dev \<rparr>
           in
           and_then (write_json (path_join output_dir (cp ''config.json'')) config) (\<lambda>_.
           py_print_all [Msg_blank, Msg_rule, Msg_done, Msg_saved_at output_dir,
                         Msg_rule])))))))) w0))"

text \<open>
  The status the process ends with: the argument of \<^verbatim>\<open>sys.exit\<close>, 0 when \<^verbatim>\<open>main\<close> returns,
  and 1 when an exception reaches the top level.
\<close>

fun exit_status :: "stop + unit \<Rightarrow> int" where
  "exit_status (Inr _) = 0"
| "exit_status (Inl (SysExit n)) = n"
| "exit_status (Inl (Raised err)) = 1"


subsection \<open>Concrete inputs\<close>

text \<open>
  The lines, decoder, environment and worlds at which the theorems below are instantiated.
  \<open>json_loads_sample\<close> lists what \<^verbatim>\<open>json.loads\<close> returns on each of these lines; it is the
  decoder of the examples only, and the theorems themselves hold for every decoder.
\<close>

definition line_hello :: pystr where
  "line_hello = cp ''{\"prompt\": \"User: hi\", \"completion\": \"Assistant: hello\"}''"

definition line_bye :: pystr where
  "line_bye = cp ''{\"prompt\": \"bye\", \"completion\": \"see you\"}''"

definition line_empty_prompt :: pystr where
  "line_empty_prompt = cp ''{\"prompt\":\"\",\"completion\":\"hi\"}''"

definition line_no_completion :: pystr where
  "line_no_completion = cp ''{\"prompt\": \"hi\"}''"

definition line_blank_prompt :: pystr where
  "line_blank_prompt = cp ''{\"prompt\":\" \",\"completion\":\"hi\"}''"

definition line_malformed :: pystr where
  "line_malformed = cp ''not json''"

text \<open>The prompt of \<open>line_surrogate\<close> is the escape \<^verbatim>\<open>\ud800\<close>; 92 is the backslash.\<close>

definition line_surrogate :: pystr where
  "line_surrogate = cp ''{\"prompt\": \"'' @ [92] @ cp ''ud800\", \"completion\": \"hi\"}''"

definition line_say :: pystr where
  "line_say = cp ''{\"prompt\": \"say User: hi\", \"completion\": \"ok Assistant: then\"}''"

definition line_quote :: pystr where
  "line_quote = cp ''{\"prompt\": \"Assistant: hi\", \"completion\": \"User: ok\"}''"

definition line_number_prompt :: pystr where
  "line_number_prompt = cp ''{\"prompt\": 5, \"completion\": \"x\"}''"

definition json_loads_sample :: "pystr \<Rightarrow> py_error + pyval" where
  "json_loads_sample s =
     (if s = line_hello then
        Inr (PyDict [(cp ''prompt'', PyStr (cp ''User: hi'')),
                     (cp ''completion'', PyStr (cp ''Assistant: hello''))])
      else if s = line_bye then
        Inr (PyDict [(cp ''prompt'', PyStr (cp ''bye'')),
                     (cp ''completion'', PyStr (cp ''see you''))])
      else if s = line_empty_prompt then
        Inr (PyDict [(cp ''prompt'', PyStr []), (cp ''completion'', PyStr (cp ''hi''))])
      else if s = line_no_completion then
        Inr (PyDict [(cp ''prompt'', PyStr (cp ''hi''))])
      else if s = line_blank_prompt then
        Inr (PyDict [(cp ''prompt'', PyStr (cp '' '')), (cp ''completion'', PyStr (cp ''hi''))])
      else if s = line_surrogate then
        Inr (PyDict [(cp ''prompt'', PyStr [55296]), (cp ''completion'', PyStr (cp ''hi''))])
      else if s = line_say then
        Inr (PyDict [(cp ''prompt'', PyStr (cp ''say User: hi'')),
                     (cp ''completion'', PyStr (cp ''ok Assistant: then''))])
      else if s = line_quote then
        Inr (PyDict [(cp ''prompt'', PyStr (cp ''Assistant: hi'')),
                     (cp ''completion'', PyStr (cp ''User: ok''))])
      else if s = line_number_prompt then
        Inr (PyDict [(cp ''prompt'', PyInt 5), (cp ''completion'', PyStr (cp ''x''))])
      else if s = line_malformed then Inl JSONDecodeError
      else Inl JSONDecodeError)"

text \<open>
  A stand-in for the library's split, which shuffles: the first three records are the test
  part. Three is the size the library gives the test part of 21 records.
\<close>

definition split_sample :: "pystr list \<Rightarrow> rat \<Rightarrow> int \<Rightarrow> py_error + pystr list \<times> pystr list" where
  "split_sample ds test_size seed = Inr (drop 3 ds, take 3 ds)"

definition sample_env :: env where
  "sample_env = \<lparr>
     env_now = cp ''20240101_120000'',
     env_cuda = False,
     env_mps = False,
     env_json_loads = json_loads_sample,
     env_split = split_sample,
     env_lib_raises = (\<lambda>c. None),
     env_json_text = (\<lambda>c. []) \<rparr>"

text \<open>The defaults of \<^verbatim>\<open>parse_args\<close>, with \<^verbatim>\<open>--data train.jsonl\<close>.\<close>

definition sample_args :: args where
  "sample_args = \<lparr>
     arg_data = cp ''train.jsonl'',
     arg_output = cp ''./output'',
     arg_model = cp ''Qwen/Qwen2.5-0.5B-Instruct'',
     arg_epochs = 3,
     arg_batch_size = 1,
     arg_learning_rate = FloatFinite (2 / 10000),
     arg_max_length = 512,
     arg_lora_r = 8,
     arg_export_gguf = False,
     arg_gguf_output = None,
     arg_lr_scheduler = cp ''cosine'',
     arg_early_stopping_patience = 3 \<rparr>"

definition empty_world :: world where
  "empty_world = \<lparr> fs_files = Map.empty, fs_dirs = {}, printed = [], lib_calls = [] \<rparr>"

definition world_with :: "pystr list \<Rightarrow> world" where
  "world_with file_lines =
     \<lparr> fs_files = [cp ''train.jsonl'' \<mapsto> TextLines file_lines], fs_dirs = {},
       printed = [], lib_calls = [] \<rparr>"

section \<open>Properties\<close>

subsection \<open>The loop of the loader\<close>

text \<open>
  The list \<open>data\<close> only grows at its end, so the loop on a file is the loop on each line,
  in order; and \<^verbatim>\<open>Dataset.from_list\<close> accepts a list exactly when it accepts its parts.
\<close>

lemma loop_body_acc:
  "loop_body L data raw = (case loop_body L [] raw of Inl e \<Rightarrow> Inl e | Inr r \<Rightarrow> Inr (data @ r))"
  by (simp add: loop_body_def Let_def split: sum.splits)

lemma load_loop_acc:
  "load_loop L data ls = (case load_loop L [] ls of Inl e \<Rightarrow> Inl e | Inr r \<Rightarrow> Inr (data @ r))"
proof (induction ls arbitrary: data)
  case Nil
  then show ?case by simp
next
  case (Cons raw rest)
  show ?case
  proof (cases "loop_body L [] raw")
    case (Inl e)
    then show ?thesis by (simp add: loop_body_acc [of L data])
  next
    case (Inr r)
    then show ?thesis
      using Cons.IH [of "data @ r"] Cons.IH [of r]
      by (simp add: loop_body_acc [of L data] split: sum.splits)
  qed
qed

lemma load_loop_Cons:
  "load_loop L [] (raw # rest) =
     (case loop_body L [] raw of
        Inl e \<Rightarrow> Inl e
      | Inr r \<Rightarrow> (case load_loop L [] rest of Inl e \<Rightarrow> Inl e | Inr r' \<Rightarrow> Inr (r @ r')))"
proof (cases "loop_body L [] raw")
  case (Inl e)
  then show ?thesis by simp
next
  case (Inr r)
  then show ?thesis
    using load_loop_acc [of L r rest] by simp
qed

lemma load_loop_append:
  "load_loop L [] (xs @ ys) =
     (case load_loop L [] xs of
        Inl e \<Rightarrow> Inl e
      | Inr r \<Rightarrow> (case load_loop L [] ys of Inl e \<Rightarrow> Inl e | Inr r' \<Rightarrow> Inr (r @ r')))"
proof (induction xs)
  case Nil
  show ?case by (simp split: sum.splits)
next
  case (Cons x xs)
  show ?case
    by (simp add: load_loop_Cons [of L x "xs @ ys"] load_loop_Cons [of L x xs] Cons.IH
        del: load_loop.simps split: sum.splits)
qed

lemma from_list_Inr_iff:
  "dataset_from_list d = Inr r \<longleftrightarrow> r = d \<and> \<not> list_ex (list_ex is_surrogate) d"
  by (auto simp add: dataset_from_list_def)

lemma from_list_append:
  "dataset_from_list (a @ b) = Inr r \<longleftrightarrow>
     (\<exists>ra rb. dataset_from_list a = Inr ra \<and> dataset_from_list b = Inr rb \<and> r = ra @ rb)"
  by (auto simp add: dataset_from_list_def list_ex_iff)

lemma load_dataset_Nil: "load_dataset L [] = Inr []"
  by (simp add: load_dataset_def dataset_from_list_def)

lemma load_dataset_Inr_iff:
  "load_dataset L ls = Inr recs \<longleftrightarrow>
     load_loop L [] ls = Inr recs \<and> \<not> list_ex (list_ex is_surrogate) recs"
  by (auto simp add: load_dataset_def from_list_Inr_iff split: sum.splits)

lemma load_dataset_loop_Inl: "load_loop L [] ls = Inl e \<Longrightarrow> load_dataset L ls = Inl e"
  by (simp add: load_dataset_def)

lemma load_dataset_append_Inr:
  "load_dataset L (xs @ ys) = Inr recs \<longleftrightarrow>
     (\<exists>r1 r2. load_dataset L xs = Inr r1 \<and> load_dataset L ys = Inr r2 \<and> recs = r1 @ r2)"
  by (auto simp add: load_dataset_Inr_iff load_loop_append [of L xs ys] list_ex_iff
      split: sum.splits)

lemma load_dataset_single:
  "load_dataset L [raw] =
     (case loop_body L [] raw of Inl e \<Rightarrow> Inl e | Inr d \<Rightarrow> dataset_from_list d)"
  by (simp add: load_dataset_def split: sum.splits)

lemma loop_body_skip:
  assumes "L (py_strip raw) = Inr (PyDict kvs)"
    and "map_of kvs (cp ''prompt'') \<in> {None, Some (PyStr [])} \<or>
         map_of kvs (cp ''completion'') \<in> {None, Some (PyStr [])}"
  shows "loop_body L data raw = Inr data"
  using assms by (auto simp add: loop_body_def Let_def split: sum.splits option.splits)

lemma loop_body_accept:
  assumes "py_strip raw \<noteq> []" "L (py_strip raw) = Inr (PyDict kvs)"
    and "map_of kvs (cp ''prompt'') = Some (PyStr p)" "p \<noteq> []"
    and "map_of kvs (cp ''completion'') = Some (PyStr c)" "c \<noteq> []"
  shows "loop_body L data raw = Inr (data @ [chat_text (clean_prompt p) (clean_completion c)])"
  using assms by (simp add: loop_body_def Let_def)

lemma loop_body_raise:
  assumes "py_strip raw \<noteq> []" "L (py_strip raw) = Inl e"
  shows "loop_body L data raw = Inl e"
  using assms by (simp add: loop_body_def Let_def)

lemmas sample_lines = line_hello_def line_bye_def line_empty_prompt_def line_no_completion_def
  line_blank_prompt_def line_malformed_def line_surrogate_def line_say_def line_quote_def
  line_number_prompt_def

lemmas label_defs = label_user_zh_def label_user_en_def label_assistant_zh_def
  label_assistant_en_def cp_def

lemmas loader_eval = load_dataset_def dataset_from_list_def is_surrogate_def chat_text_def
  loop_body_def py_strip_def is_space_def
  json_loads_sample_def sample_lines clean_prompt_def clean_completion_def label_defs


subsection \<open>Lines the loader skips and lines that stop it\<close>

text \<open>
  Claim C1, as amended. A line whose decoded object lacks \<^verbatim>\<open>prompt\<close> or \<^verbatim>\<open>completion\<close>, or
  holds the empty string for one of them, contributes no record: the loader returns what it
  returns on the file without that line. The fields are tested as decoded; only the line is
  stripped, before decoding.
\<close>

theorem empty_or_missing_field_is_skipped:
  assumes "L (py_strip raw) = Inr (PyDict kvs)"
    and "map_of kvs (cp ''prompt'') \<in> {None, Some (PyStr [])} \<or>
         map_of kvs (cp ''completion'') \<in> {None, Some (PyStr [])}"
  shows "load_dataset L (xs @ raw # ys) = load_dataset L (xs @ ys)"
proof -
  have "loop_body L [] raw = Inr []"
    using assms loop_body_skip [of L raw kvs "[]"] by simp
  then have "load_loop L [] (raw # ys) = load_loop L [] ys"
    by (cases "load_loop L [] ys") (simp_all add: load_loop_Cons [of L raw ys])
  then have "load_loop L [] (xs @ raw # ys) = load_loop L [] (xs @ ys)"
    by (simp only: load_loop_append [of L xs "raw # ys"] load_loop_append [of L xs ys])
  then show ?thesis
    by (simp only: load_dataset_def)
qed

theorem empty_or_missing_field_is_skipped_witness:
  "load_dataset json_loads_sample [line_hello @ [10], line_empty_prompt @ [10], line_no_completion @ [10]] =
     load_dataset json_loads_sample [line_hello @ [10], line_no_completion @ [10]] \<and>
   load_dataset json_loads_sample [line_empty_prompt @ [10]] = Inr []"
proof -
  have d: "json_loads_sample (py_strip (line_empty_prompt @ [10])) =
      Inr (PyDict [(cp ''prompt'', PyStr []), (cp ''completion'', PyStr (cp ''hi''))])"
    by (simp add: loader_eval)
  have m: "map_of [(cp ''prompt'', PyStr []), (cp ''completion'', PyStr (cp ''hi''))] (cp ''prompt'')
       \<in> {None, Some (PyStr [])} \<or>
     map_of [(cp ''prompt'', PyStr []), (cp ''completion'', PyStr (cp ''hi''))] (cp ''completion'')
       \<in> {None, Some (PyStr [])}"
    by simp
  show ?thesis
    using d m
      empty_or_missing_field_is_skipped [of json_loads_sample "line_empty_prompt @ [10]"
        "[(cp ''prompt'', PyStr []), (cp ''completion'', PyStr (cp ''hi''))]"
        "[line_hello @ [10]]" "[line_no_completion @ [10]]"]
      empty_or_missing_field_is_skipped [of json_loads_sample "line_empty_prompt @ [10]"
        "[(cp ''prompt'', PyStr []), (cp ''completion'', PyStr (cp ''hi''))]" "[]" "[]"]
    by (simp add: load_dataset_Nil)
qed

text \<open>
  The claim as stated fails for a field that is empty only after stripping: the line
  \<^verbatim>\<open>{"prompt":" ","completion":"hi"}\<close> has a prompt of one space, and contributes a record.
\<close>

theorem blank_field_is_kept:
  "py_strip (cp '' '') = [] \<and>
   load_dataset json_loads_sample [line_blank_prompt @ [10]] = Inr [chat_text (cp '' '') (cp ''hi'')]"
  by (simp add: loader_eval)

text \<open>
  Claim C2, as amended. A non-blank line on which \<^verbatim>\<open>json.loads\<close> raises makes the loader
  raise: no dataset is returned, and when the lines before it load, the exception is that
  of this line.
\<close>

theorem malformed_line_raises:
  assumes "raw \<in> set file_lines" "py_strip raw \<noteq> []" "L (py_strip raw) = Inl e"
  shows "(\<exists>e'. load_dataset L file_lines = Inl e') \<and>
         (\<forall>xs ys d. file_lines = xs @ raw # ys \<and> load_dataset L xs = Inr d
            \<longrightarrow> load_dataset L file_lines = Inl e)"
proof -
  have one: "loop_body L [] raw = Inl e"
    using assms(2,3) loop_body_raise [of raw L e "[]"] by simp
  have at: "load_loop L [] (xs @ raw # ys) =
      (case load_loop L [] xs of Inl e' \<Rightarrow> Inl e' | Inr d \<Rightarrow> Inl e)" for xs ys
  proof -
    have "load_loop L [] (raw # ys) = Inl e"
      by (simp add: load_loop_Cons [of L raw ys] one)
    then show ?thesis
      by (cases "load_loop L [] xs") (simp_all add: load_loop_append [of L xs "raw # ys"])
  qed
  from assms(1) obtain xs ys where "file_lines = xs @ raw # ys"
    by (auto simp: in_set_conv_decomp)
  then have "\<exists>e'. load_loop L [] file_lines = Inl e'"
    by (simp add: at split: sum.splits)
  then have "\<exists>e'. load_dataset L file_lines = Inl e'"
    by (auto simp add: load_dataset_def)
  moreover have "\<forall>xs ys d. file_lines = xs @ raw # ys \<and> load_dataset L xs = Inr d
            \<longrightarrow> load_dataset L file_lines = Inl e"
    by (auto simp add: at load_dataset_Inr_iff intro!: load_dataset_loop_Inl)
  ultimately show ?thesis by blast
qed

theorem malformed_line_raises_witness:
  "load_dataset json_loads_sample [line_hello @ [10], line_malformed @ [10], line_bye @ [10]] =
     Inl JSONDecodeError"
proof -
  have a: "line_malformed @ [10] \<in> set [line_hello @ [10], line_malformed @ [10], line_bye @ [10]]"
    by simp
  have b: "py_strip (line_malformed @ [10]) \<noteq> []"
    by (simp add: loader_eval)
  have c: "json_loads_sample (py_strip (line_malformed @ [10])) = Inl JSONDecodeError"
    by (simp add: loader_eval)
  have d: "load_dataset json_loads_sample [line_hello @ [10]] =
      Inr [chat_text (cp ''hi'') (cp ''hello'')]"
    by (simp add: loader_eval)
  from a b c
    malformed_line_raises [of "line_malformed @ [10]" "[line_hello @ [10], line_malformed @ [10], line_bye @ [10]]"
      json_loads_sample JSONDecodeError]
  have
    "\<forall>xs ys d. [line_hello @ [10], line_malformed @ [10], line_bye @ [10]] = xs @ (line_malformed @ [10]) # ys
        \<and> load_dataset json_loads_sample xs = Inr d
      \<longrightarrow> load_dataset json_loads_sample [line_hello @ [10], line_malformed @ [10], line_bye @ [10]]
            = Inl JSONDecodeError"
    by blast
  from this [rule_format, of "[line_hello @ [10]]" "[line_bye @ [10]]"] d
  show ?thesis by simp
qed

text \<open>
  The claim as stated fails: with a well-formed line followed by a malformed one the
  loader returns no records at all, it raises the decoder's exception.
\<close>

theorem malformed_line_not_skipped:
  "load_dataset json_loads_sample [line_hello @ [10], line_malformed @ [10]] = Inl JSONDecodeError"
  by (simp add: loader_eval)


subsection \<open>The order of the records\<close>

text \<open>
  Claim C8. The loader preserves the order of the input: the records it returns are the
  records of the single lines, concatenated in the order of the lines; and for every split
  of the file into a front and a back part, the records of the front come first.
\<close>

theorem loader_preserves_order:
  assumes "load_dataset L file_lines = Inr recs"
  shows "recs = concat (map (\<lambda>raw. case load_dataset L [raw] of Inr r \<Rightarrow> r | Inl e \<Rightarrow> []) file_lines) \<and>
         (\<forall>xs ys. file_lines = xs @ ys \<longrightarrow>
            (\<exists>r1 r2. load_dataset L xs = Inr r1 \<and> load_dataset L ys = Inr r2 \<and> recs = r1 @ r2))"
proof -
  have "recs = concat (map (\<lambda>raw. case load_dataset L [raw] of Inr r \<Rightarrow> r | Inl e \<Rightarrow> []) file_lines)"
    using assms
  proof (induction file_lines arbitrary: recs)
    case Nil
    then show ?case by (simp add: load_dataset_Nil)
  next
    case (Cons raw rest)
    from Cons.prems obtain r1 r2 where
      "load_dataset L [raw] = Inr r1" "load_dataset L rest = Inr r2" "recs = r1 @ r2"
      using load_dataset_append_Inr [of L "[raw]" rest recs] by auto
    with Cons.IH [of r2] show ?case by simp
  qed
  moreover have "\<forall>xs ys. file_lines = xs @ ys \<longrightarrow>
            (\<exists>r1 r2. load_dataset L xs = Inr r1 \<and> load_dataset L ys = Inr r2 \<and> recs = r1 @ r2)"
    using assms by (auto simp add: load_dataset_append_Inr)
  ultimately show ?thesis by blast
qed

theorem loader_preserves_order_witness:
  "load_dataset json_loads_sample [line_bye @ [10], line_empty_prompt @ [10], line_hello @ [10]] =
     Inr [chat_text (cp ''bye'') (cp ''see you''), chat_text (cp ''hi'') (cp ''hello'')] \<and>
   [chat_text (cp ''bye'') (cp ''see you''), chat_text (cp ''hi'') (cp ''hello'')] =
     concat (map (\<lambda>raw. case load_dataset json_loads_sample [raw] of Inr r \<Rightarrow> r | Inl e \<Rightarrow> [])
       [line_bye @ [10], line_empty_prompt @ [10], line_hello @ [10]])"
proof -
  have l: "load_dataset json_loads_sample
        [line_bye @ [10], line_empty_prompt @ [10], line_hello @ [10]] =
      Inr [chat_text (cp ''bye'') (cp ''see you''), chat_text (cp ''hi'') (cp ''hello'')]"
    by (simp add: loader_eval)
  from loader_preserves_order [OF l] show ?thesis
    using l by blast
qed

subsection \<open>Facts about \<^verbatim>\<open>str.replace\<close> and the role labels\<close>

lemma str_replace_Nil: "old \<noteq> [] \<Longrightarrow> str_replace old new [] = []"
  by simp

lemma str_replace_hit:
  "old \<noteq> [] \<Longrightarrow> str_replace old new (old @ s) = new @ str_replace old new s"
  by (cases old) simp_all

lemma str_replace_no_start:
  "old \<noteq> [] \<Longrightarrow> hd old \<notin> set m \<Longrightarrow> str_replace old new (m @ s) = m @ str_replace old new s"
proof (induction m)
  case Nil
  then show ?case by simp
next
  case (Cons c m)
  from Cons.prems have "\<not> prefix old (c # m @ s)"
    by (cases old) auto
  with Cons show ?case by simp
qed

lemma prefix_reaches:
  assumes "prefix old (a @ r)" "length a < length old" "r \<noteq> []"
  shows "hd r \<in> set old"
proof -
  from assms(1) obtain t where t: "a @ r = old @ t" by (auto simp: prefix_def)
  from assms(2) have "old ! length a \<in> set old" by simp
  moreover have "old ! length a = (old @ t) ! length a"
    using assms(2) by (simp add: nth_append)
  moreover have "(a @ r) ! length a = hd r"
    using assms(3) by (simp add: nth_append hd_conv_nth)
  ultimately show ?thesis using t by simp
qed

lemma prefix_inside:
  assumes "prefix old (a @ r)" "length old \<le> length a"
  shows "prefix old a"
  using assms prefix_length_prefix [of old "a @ r" a] by simp

lemma str_replace_barrier:
  assumes "old \<noteq> []" "m \<noteq> []" "hd old \<notin> set m" "hd m \<notin> set old"
  shows "str_replace old new (a @ m @ b) = str_replace old new a @ m @ str_replace old new b"
proof (induction "length a" arbitrary: a rule: less_induct)
  case less
  show ?case
  proof (cases a)
    case Nil
    with assms show ?thesis by (simp add: str_replace_no_start)
  next
    case (Cons c cs)
    show ?thesis
    proof (cases "prefix old (a @ m @ b)")
      case True
      have le: "length old \<le> length a"
      proof (rule ccontr)
        assume "\<not> length old \<le> length a"
        then have "hd (m @ b) \<in> set old"
          using prefix_reaches [of old a "m @ b"] True assms(2) by simp
        with assms(2,4) show False by simp
      qed
      with True have pa: "prefix old a" by (rule prefix_inside)
      have shorter: "length (drop (length old) a) < length a"
        using assms(1) Cons by simp
      have e1: "str_replace old new (a @ m @ b) =
              new @ str_replace old new (drop (length old) (a @ m @ b))"
        using True assms(1) Cons by simp
      have e2: "drop (length old) (a @ m @ b) = drop (length old) a @ m @ b"
        using le by simp
      have e3: "str_replace old new (drop (length old) a @ m @ b) =
              str_replace old new (drop (length old) a) @ m @ str_replace old new b"
        using less [OF shorter] .
      have e4: "str_replace old new a = new @ str_replace old new (drop (length old) a)"
        using pa assms(1) Cons by simp
      show ?thesis by (simp only: e1 e2 e3 e4 append_assoc)
    next
      case False
      then have "\<not> prefix old a" by auto
      with False Cons assms(1) less [of cs] show ?thesis by simp
    qed
  qed
qed

lemma str_replace_occurrence:
  assumes "old \<noteq> []"
    and free: "\<forall>k. 0 < k \<and> k < length old \<longrightarrow> take k old \<noteq> drop (length old - k) old"
  shows "str_replace old new (a @ old @ b) = str_replace old new a @ new @ str_replace old new b"
proof (induction "length a" arbitrary: a rule: less_induct)
  case less
  show ?case
  proof (cases a)
    case Nil
    with assms(1) show ?thesis by (simp add: str_replace_hit)
  next
    case (Cons c cs)
    show ?thesis
    proof (cases "prefix old (a @ old @ b)")
      case True
      have le: "length old \<le> length a"
      proof (rule ccontr)
        assume n: "\<not> length old \<le> length a"
        define k where "k = length old - length a"
        from n Cons have k: "0 < k" "k < length old" by (simp_all add: k_def)
        from True obtain t where "a @ old @ b = old @ t" by (auto simp: prefix_def)
        then have "take (length old) (a @ old @ b) = old" by simp
        then have "a @ take k old = old" using n by (simp add: k_def)
        then have "drop (length a) old = take k old"
          by (metis append_eq_conv_conj)
        moreover have "length a = length old - k" using n by (simp add: k_def)
        ultimately have "take k old = drop (length old - k) old" by simp
        with free k show False by blast
      qed
      with True have pa: "prefix old a" by (rule prefix_inside)
      have shorter: "length (drop (length old) a) < length a"
        using assms(1) Cons by simp
      have e1: "str_replace old new (a @ old @ b) =
              new @ str_replace old new (drop (length old) (a @ old @ b))"
        using True assms(1) Cons by simp
      have e2: "drop (length old) (a @ old @ b) = drop (length old) a @ old @ b"
        using le by simp
      have e3: "str_replace old new (drop (length old) a @ old @ b) =
              str_replace old new (drop (length old) a) @ new @ str_replace old new b"
        using less [OF shorter] .
      have e4: "str_replace old new a = new @ str_replace old new (drop (length old) a)"
        using pa assms(1) Cons by simp
      show ?thesis by (simp only: e1 e2 e3 e4 append_assoc)
    next
      case False
      then have "\<not> prefix old a" by auto
      with False Cons assms(1) less [of cs] show ?thesis by simp
    qed
  qed
qed

lemma border_free_last:
  assumes "old \<noteq> []" "last old \<notin> set (butlast old)"
  shows "\<forall>k. 0 < k \<and> k < length old \<longrightarrow> take k old \<noteq> drop (length old - k) old"
proof (intro allI impI notI)
  fix k
  assume "0 < k \<and> k < length old" and eq: "take k old = drop (length old - k) old"
  then have k: "0 < k" "k < length old" by simp_all
  then have "length old - k < length old" by arith
  then have "last (drop (length old - k) old) = last old"
    by (rule last_drop)
  moreover have "last (take k old) = old ! (k - 1)"
  proof -
    have "take k old \<noteq> []" "length (take k old) = k" using k by auto
    then have "last (take k old) = take k old ! (k - 1)" by (simp add: last_conv_nth)
    then show ?thesis using k by simp
  qed
  moreover have "old ! (k - 1) = butlast old ! (k - 1)"
    using k by (simp add: nth_butlast)
  moreover have "butlast old ! (k - 1) \<in> set (butlast old)"
    using k by (intro nth_mem) simp
  ultimately show False using eq assms(2) by simp
qed

lemma str_replace_absent:
  assumes "old \<noteq> []" "\<not> sublist old s"
  shows "str_replace old new s = s"
  using assms(2)
proof (induction s)
  case Nil
  with assms(1) show ?case by simp
next
  case (Cons c cs)
  from Cons.prems have "\<not> prefix old (c # cs)" "\<not> sublist old cs"
    by (simp_all add: sublist_Cons_right)
  with Cons.IH assms(1) show ?case by simp
qed

lemma set_str_replace: "set (str_replace old new s) \<subseteq> set new \<union> set s"
proof (induction old new s rule: str_replace.induct)
  case (1 old new)
  show ?case by auto
next
  case (2 old new c cs)
  show ?case
  proof (cases "old = []")
    case True
    with "2.IH"(1) show ?thesis by auto
  next
    case False
    show ?thesis
    proof (cases "prefix old (c # cs)")
      case True
      have "set (drop (length old) (c # cs)) \<subseteq> set (c # cs)"
        by (rule set_drop_subset)
      with "2.IH"(2) [OF False True] False True show ?thesis by auto
    next
      case np: False
      with "2.IH"(3) [OF False np] False show ?thesis by auto
    qed
  qed
qed

lemma replace_label_occurrence:
  assumes "old \<in> {label_user_zh, label_user_en, label_assistant_zh, label_assistant_en}"
  shows "str_replace old [] (a @ old @ b) = str_replace old [] a @ str_replace old [] b"
proof -
  have "old \<noteq> []" "last old \<notin> set (butlast old)"
    using assms by (auto simp: label_defs)
  then show ?thesis
    using str_replace_occurrence [of old "[]" a b] border_free_last [of old] by simp
qed

lemma user_labels_keep:
  assumes "old \<in> {label_user_zh, label_user_en}" "m \<in> {label_assistant_zh, label_assistant_en}"
  shows "str_replace old [] (a @ m @ b) = str_replace old [] a @ m @ str_replace old [] b"
    and "str_replace m [] (a @ old @ b) = str_replace m [] a @ old @ str_replace m [] b"
proof -
  have "old \<noteq> []" "m \<noteq> []" "hd old \<notin> set m" "hd m \<notin> set old"
    using assms by (auto simp: label_defs)
  then show "str_replace old [] (a @ m @ b) = str_replace old [] a @ m @ str_replace old [] b"
    and "str_replace m [] (a @ old @ b) = str_replace m [] a @ old @ str_replace m [] b"
    by (simp_all add: str_replace_barrier)
qed

lemma zh_skips_en:
  "str_replace label_user_zh [] (a @ label_user_en @ b) =
     str_replace label_user_zh [] a @ label_user_en @ str_replace label_user_zh [] b"
  "str_replace label_assistant_zh [] (a @ label_assistant_en @ b) =
     str_replace label_assistant_zh [] a @ label_assistant_en @ str_replace label_assistant_zh [] b"
  by (rule str_replace_barrier; simp add: label_defs)+

lemma clean_prompt_en: "clean_prompt (a @ label_user_en @ b) = clean_prompt a @ clean_prompt b"
  by (simp add: clean_prompt_def zh_skips_en replace_label_occurrence)

lemma clean_completion_en:
  "clean_completion (a @ label_assistant_en @ b) = clean_completion a @ clean_completion b"
  by (simp add: clean_completion_def zh_skips_en replace_label_occurrence)

lemma clean_prompt_zh:
  "clean_prompt (a @ label_user_zh @ b) =
     str_replace label_user_en [] (str_replace label_user_zh [] a @ str_replace label_user_zh [] b)"
  by (simp add: clean_prompt_def replace_label_occurrence)

lemma clean_completion_zh:
  "clean_completion (a @ label_assistant_zh @ b) =
     str_replace label_assistant_en []
       (str_replace label_assistant_zh [] a @ str_replace label_assistant_zh [] b)"
  by (simp add: clean_completion_def replace_label_occurrence)

lemma clean_prompt_keeps:
  assumes "m \<in> {label_assistant_zh, label_assistant_en}"
  shows "clean_prompt (a @ m @ b) = clean_prompt a @ m @ clean_prompt b"
  using assms by (simp add: clean_prompt_def user_labels_keep(1))

lemma clean_completion_keeps:
  assumes "m \<in> {label_user_zh, label_user_en}"
  shows "clean_completion (a @ m @ b) = clean_completion a @ m @ clean_completion b"
  using assms by (simp add: clean_completion_def user_labels_keep(2))

lemma clean_Nil: "clean_prompt [] = []" "clean_completion [] = []"
  by (simp_all add: clean_prompt_def clean_completion_def label_defs)

lemma clean_prompt_absent:
  assumes "\<not> sublist label_user_zh r" "\<not> sublist label_user_en r"
  shows "clean_prompt r = r"
  using assms by (simp add: clean_prompt_def str_replace_absent label_defs)

lemma clean_completion_absent:
  assumes "\<not> sublist label_assistant_zh r" "\<not> sublist label_assistant_en r"
  shows "clean_completion r = r"
  using assms by (simp add: clean_completion_def str_replace_absent label_defs)

lemma clean_prefix:
  "clean_prompt (label_user_zh @ r) = clean_prompt r"
  "clean_prompt (label_user_en @ r) = clean_prompt r"
  "clean_completion (label_assistant_zh @ r) = clean_completion r"
  "clean_completion (label_assistant_en @ r) = clean_completion r"
proof -
  show "clean_prompt (label_user_zh @ r) = clean_prompt r"
    using clean_prompt_zh [of "[]" r] by (simp add: clean_prompt_def label_defs)
  show "clean_prompt (label_user_en @ r) = clean_prompt r"
    using clean_prompt_en [of "[]" r] by (simp add: clean_Nil)
  show "clean_completion (label_assistant_zh @ r) = clean_completion r"
    using clean_completion_zh [of "[]" r] by (simp add: clean_completion_def label_defs)
  show "clean_completion (label_assistant_en @ r) = clean_completion r"
    using clean_completion_en [of "[]" r] by (simp add: clean_Nil)
qed

lemma no_surrogate_clean:
  "\<not> list_ex is_surrogate p \<Longrightarrow> \<not> list_ex is_surrogate (clean_prompt p)"
  "\<not> list_ex is_surrogate c \<Longrightarrow> \<not> list_ex is_surrogate (clean_completion c)"
  using set_str_replace [of label_user_en "[]" "str_replace label_user_zh [] p"]
    set_str_replace [of label_user_zh "[]" p]
    set_str_replace [of label_assistant_en "[]" "str_replace label_assistant_zh [] c"]
    set_str_replace [of label_assistant_zh "[]" c]
  by (auto simp add: clean_prompt_def clean_completion_def list_ex_iff)

lemma no_surrogate_chat_text:
  assumes "\<not> list_ex is_surrogate q" "\<not> list_ex is_surrogate k"
  shows "\<not> list_ex is_surrogate (chat_text q k)"
proof -
  have "\<not> list_ex is_surrogate (cp ''<|im_start|>user'' @ [10])"
    "\<not> list_ex is_surrogate (cp ''<|im_end|>'' @ [10] @ cp ''<|im_start|>assistant'' @ [10])"
    "\<not> list_ex is_surrogate (cp ''<|im_end|>'')"
    by (simp_all add: cp_def is_surrogate_def)
  with assms show ?thesis
    by (auto simp add: chat_text_def list_ex_iff)
qed

lemma load_dataset_accept:
  assumes "py_strip raw \<noteq> []" "L (py_strip raw) = Inr (PyDict kvs)"
    and "map_of kvs (cp ''prompt'') = Some (PyStr p)" "p \<noteq> []"
    and "map_of kvs (cp ''completion'') = Some (PyStr c)" "c \<noteq> []"
  shows "load_dataset L [raw] =
           dataset_from_list [chat_text (clean_prompt p) (clean_completion c)]"
  using assms loop_body_accept [of raw L kvs p c "[]"] by (simp add: load_dataset_single)

subsection \<open>Lines the loader accepts\<close>

text \<open>
  Claim C3. A line whose decoded object holds non-empty strings \<open>p\<close> and \<open>c\<close> for
  \<^verbatim>\<open>prompt\<close> and \<^verbatim>\<open>completion\<close> contributes one row, the template applied to the cleaned
  prompt and the cleaned completion, and in a dataset the loader returns that row stands at
  the place of the line. Cleaning removes a leading user label from the prompt and a
  leading assistant label from the completion, and a rest that holds no label of that role
  is kept as it is. For the prompt \<^verbatim>\<open>"User: hi"\<close> and the completion \<^verbatim>\<open>"Assistant: hello"\<close> the
  text holds \<^verbatim>\<open>hi\<close> and \<^verbatim>\<open>hello\<close> and no label (the instance after the theorem).
\<close>

theorem role_prefixes_removed_before_templating:
  assumes "py_strip raw \<noteq> []" "L (py_strip raw) = Inr (PyDict kvs)"
    and "map_of kvs (cp ''prompt'') = Some (PyStr p)" "p \<noteq> []"
    and "map_of kvs (cp ''completion'') = Some (PyStr c)" "c \<noteq> []"
  shows "load_dataset L [raw] =
           dataset_from_list [chat_text (clean_prompt p) (clean_completion c)] \<and>
         (\<forall>recs. load_dataset L (xs @ raw # ys) = Inr recs \<longrightarrow>
            (\<exists>d d'. load_dataset L xs = Inr d \<and> load_dataset L ys = Inr d' \<and>
               recs = d @ chat_text (clean_prompt p) (clean_completion c) # d')) \<and>
         clean_prompt (label_user_zh @ r) = clean_prompt r \<and>
         clean_prompt (label_user_en @ r) = clean_prompt r \<and>
         clean_completion (label_assistant_zh @ r) = clean_completion r \<and>
         clean_completion (label_assistant_en @ r) = clean_completion r \<and>
         (\<not> sublist label_user_zh r \<and> \<not> sublist label_user_en r \<longrightarrow>
            clean_prompt r = r \<and> clean_prompt (label_user_zh @ r) = r \<and>
            clean_prompt (label_user_en @ r) = r) \<and>
         (\<not> sublist label_assistant_zh r \<and> \<not> sublist label_assistant_en r \<longrightarrow>
            clean_completion r = r \<and> clean_completion (label_assistant_zh @ r) = r \<and>
            clean_completion (label_assistant_en @ r) = r)"
proof -
  let ?text = "chat_text (clean_prompt p) (clean_completion c)"
  have one: "load_dataset L [raw] = dataset_from_list [?text]"
    using assms by (rule load_dataset_accept)
  have place: "\<forall>recs. load_dataset L (xs @ raw # ys) = Inr recs \<longrightarrow>
            (\<exists>d d'. load_dataset L xs = Inr d \<and> load_dataset L ys = Inr d' \<and>
               recs = d @ ?text # d')"
  proof (intro allI impI)
    fix recs
    assume "load_dataset L (xs @ raw # ys) = Inr recs"
    then obtain d r2 where d: "load_dataset L xs = Inr d" "load_dataset L ([raw] @ ys) = Inr r2"
      "recs = d @ r2"
      using load_dataset_append_Inr [of L xs "raw # ys" recs] by auto
    then obtain ra d' where r: "load_dataset L [raw] = Inr ra" "load_dataset L ys = Inr d'"
      "r2 = ra @ d'"
      using load_dataset_append_Inr [of L "[raw]" ys r2] by auto
    from r(1) one have "ra = [?text]"
      by (simp add: from_list_Inr_iff)
    with d r show "\<exists>d d'. load_dataset L xs = Inr d \<and> load_dataset L ys = Inr d' \<and>
               recs = d @ ?text # d'"
      by simp
  qed
  have keep1: "\<not> sublist label_user_zh r \<and> \<not> sublist label_user_en r \<longrightarrow>
            clean_prompt r = r \<and> clean_prompt (label_user_zh @ r) = r \<and>
            clean_prompt (label_user_en @ r) = r"
    by (simp add: clean_prefix clean_prompt_absent)
  have keep2: "\<not> sublist label_assistant_zh r \<and> \<not> sublist label_assistant_en r \<longrightarrow>
            clean_completion r = r \<and> clean_completion (label_assistant_zh @ r) = r \<and>
            clean_completion (label_assistant_en @ r) = r"
    by (simp add: clean_prefix clean_completion_absent)
  from one place keep1 keep2 clean_prefix [of r] show ?thesis
    by (intro conjI)
qed

theorem role_prefixes_removed_before_templating_witness:
  "load_dataset json_loads_sample [line_hello @ [10]] = Inr [chat_text (cp ''hi'') (cp ''hello'')] \<and>
   chat_text (cp ''hi'') (cp ''hello'') =
     cp ''<|im_start|>user'' @ [10] @ cp ''hi<|im_end|>'' @ [10] @
     cp ''<|im_start|>assistant'' @ [10] @ cp ''hello<|im_end|>'' \<and>
   \<not> sublist label_user_zh (chat_text (cp ''hi'') (cp ''hello'')) \<and>
   \<not> sublist label_user_en (chat_text (cp ''hi'') (cp ''hello'')) \<and>
   \<not> sublist label_assistant_zh (chat_text (cp ''hi'') (cp ''hello'')) \<and>
   \<not> sublist label_assistant_en (chat_text (cp ''hi'') (cp ''hello''))"
proof -
  have a: "py_strip (line_hello @ [10]) \<noteq> []"
    by (simp add: loader_eval)
  have b: "json_loads_sample (py_strip (line_hello @ [10])) =
      Inr (PyDict [(cp ''prompt'', PyStr (cp ''User: hi'')),
                   (cp ''completion'', PyStr (cp ''Assistant: hello''))])"
    by (simp add: loader_eval)
  have c: "map_of [(cp ''prompt'', PyStr (cp ''User: hi'')),
                   (cp ''completion'', PyStr (cp ''Assistant: hello''))] (cp ''prompt'') =
             Some (PyStr (label_user_en @ cp ''hi''))"
    by (simp add: label_defs)
  have d: "map_of [(cp ''prompt'', PyStr (cp ''User: hi'')),
                   (cp ''completion'', PyStr (cp ''Assistant: hello''))] (cp ''completion'') =
             Some (PyStr (label_assistant_en @ cp ''hello''))"
    by (simp add: label_defs)
  have e: "label_user_en @ cp ''hi'' \<noteq> []" "label_assistant_en @ cp ''hello'' \<noteq> []"
    by (simp_all add: label_defs)
  have f: "clean_prompt (cp ''hi'') = cp ''hi''" "clean_completion (cp ''hello'') = cp ''hello''"
    by (simp_all add: clean_prompt_def clean_completion_def label_defs)
  have g: "\<not> sublist label_user_zh (chat_text (cp ''hi'') (cp ''hello''))"
    "\<not> sublist label_user_en (chat_text (cp ''hi'') (cp ''hello''))"
    "\<not> sublist label_assistant_zh (chat_text (cp ''hi'') (cp ''hello''))"
    "\<not> sublist label_assistant_en (chat_text (cp ''hi'') (cp ''hello''))"
    by (simp_all add: sublist_code chat_text_def label_defs)
  have t: "chat_text (cp ''hi'') (cp ''hello'') =
     cp ''<|im_start|>user'' @ [10] @ cp ''hi<|im_end|>'' @ [10] @
     cp ''<|im_start|>assistant'' @ [10] @ cp ''hello<|im_end|>''"
    by (simp add: chat_text_def cp_def)
  have k1: "\<not> sublist label_user_zh (cp ''hi'') \<and> \<not> sublist label_user_en (cp ''hi'')"
    by (simp add: sublist_code label_defs)
  have k2: "\<not> sublist label_assistant_zh (cp ''hello'') \<and>
      \<not> sublist label_assistant_en (cp ''hello'')"
    by (simp add: sublist_code label_defs)
  note h1 = role_prefixes_removed_before_templating [of "line_hello @ [10]" json_loads_sample
        "[(cp ''prompt'', PyStr (cp ''User: hi'')),
          (cp ''completion'', PyStr (cp ''Assistant: hello''))]"
        "label_user_en @ cp ''hi''" "label_assistant_en @ cp ''hello''" "[]" "[]" "cp ''hi''",
        OF a b c e(1) d e(2)]
  note h2 = role_prefixes_removed_before_templating [of "line_hello @ [10]" json_loads_sample
        "[(cp ''prompt'', PyStr (cp ''User: hi'')),
          (cp ''completion'', PyStr (cp ''Assistant: hello''))]"
        "label_user_en @ cp ''hi''" "label_assistant_en @ cp ''hello''" "[]" "[]" "cp ''hello''",
        OF a b c e(1) d e(2)]
  from h1 k1 have p: "clean_prompt (label_user_en @ cp ''hi'') = cp ''hi''"
    by blast
  from h2 k2 have q: "clean_completion (label_assistant_en @ cp ''hello'') = cp ''hello''"
    by blast
  from h1 have "load_dataset json_loads_sample [line_hello @ [10]] =
      dataset_from_list [chat_text (clean_prompt (label_user_en @ cp ''hi''))
             (clean_completion (label_assistant_en @ cp ''hello''))]"
    by blast
  then have "load_dataset json_loads_sample [line_hello @ [10]] =
      dataset_from_list [chat_text (cp ''hi'') (cp ''hello'')]"
    by (simp only: p q)
  then have l: "load_dataset json_loads_sample [line_hello @ [10]] =
      Inr [chat_text (cp ''hi'') (cp ''hello'')]"
    by (simp add: dataset_from_list_def is_surrogate_def chat_text_def cp_def)
  show ?thesis
    using l t g by (intro conjI)
qed

text \<open>
  Claim C4, as amended. When every line of the input is non-blank and decodes to an object
  whose \<^verbatim>\<open>prompt\<close> and \<^verbatim>\<open>completion\<close> are non-empty strings that hold no lone surrogate, the
  loader returns, and the number of records equals the number of lines.
\<close>

theorem valid_lines_give_one_record_each:
  assumes "\<forall>raw \<in> set file_lines. \<exists>kvs p c.
             py_strip raw \<noteq> [] \<and> L (py_strip raw) = Inr (PyDict kvs) \<and>
             map_of kvs (cp ''prompt'') = Some (PyStr p) \<and> p \<noteq> [] \<and>
             \<not> list_ex is_surrogate p \<and>
             map_of kvs (cp ''completion'') = Some (PyStr c) \<and> c \<noteq> [] \<and>
             \<not> list_ex is_surrogate c"
  shows "\<exists>recs. load_dataset L file_lines = Inr recs \<and> length recs = length file_lines"
  using assms
proof (induction file_lines)
  case Nil
  show ?case by (simp add: load_dataset_Nil)
next
  case (Cons raw rest)
  from Cons.prems obtain kvs p c where ok:
    "py_strip raw \<noteq> []" "L (py_strip raw) = Inr (PyDict kvs)"
    "map_of kvs (cp ''prompt'') = Some (PyStr p)" "p \<noteq> []"
    "map_of kvs (cp ''completion'') = Some (PyStr c)" "c \<noteq> []"
    and clean: "\<not> list_ex is_surrogate p" "\<not> list_ex is_surrogate c"
    by auto
  let ?text = "chat_text (clean_prompt p) (clean_completion c)"
  have "\<not> list_ex is_surrogate ?text"
    using clean by (intro no_surrogate_chat_text no_surrogate_clean)
  then have one: "load_dataset L [raw] = Inr [?text]"
    using load_dataset_accept [of raw L kvs p c, OF ok] by (simp add: dataset_from_list_def)
  from Cons obtain recs where rest: "load_dataset L rest = Inr recs" "length recs = length rest"
    by auto
  from one rest(1) have "load_dataset L ([raw] @ rest) = Inr ([?text] @ recs)"
    using load_dataset_append_Inr [of L "[raw]" rest "[?text] @ recs"] by simp
  with rest(2) show ?case by simp
qed

theorem valid_lines_give_one_record_each_witness:
  "\<exists>recs. load_dataset json_loads_sample [line_hello @ [10], line_bye @ [10]] = Inr recs \<and>
          length recs = length [line_hello @ [10], line_bye @ [10]]"
proof -
  have e1: "\<exists>kvs p c.
      py_strip (line_hello @ [10]) \<noteq> [] \<and>
      json_loads_sample (py_strip (line_hello @ [10])) = Inr (PyDict kvs) \<and>
      map_of kvs (cp ''prompt'') = Some (PyStr p) \<and> p \<noteq> [] \<and>
      \<not> list_ex is_surrogate p \<and>
      map_of kvs (cp ''completion'') = Some (PyStr c) \<and> c \<noteq> [] \<and>
      \<not> list_ex is_surrogate c"
    apply (rule exI [of _ "[(cp ''prompt'', PyStr (cp ''User: hi'')),
                             (cp ''completion'', PyStr (cp ''Assistant: hello''))]"])
    apply (rule exI [of _ "cp ''User: hi''"])
    apply (rule exI [of _ "cp ''Assistant: hello''"])
    apply (simp add: loader_eval)
    done
  have e2: "\<exists>kvs p c.
      py_strip (line_bye @ [10]) \<noteq> [] \<and>
      json_loads_sample (py_strip (line_bye @ [10])) = Inr (PyDict kvs) \<and>
      map_of kvs (cp ''prompt'') = Some (PyStr p) \<and> p \<noteq> [] \<and>
      \<not> list_ex is_surrogate p \<and>
      map_of kvs (cp ''completion'') = Some (PyStr c) \<and> c \<noteq> [] \<and>
      \<not> list_ex is_surrogate c"
    apply (rule exI [of _ "[(cp ''prompt'', PyStr (cp ''bye'')),
                             (cp ''completion'', PyStr (cp ''see you''))]"])
    apply (rule exI [of _ "cp ''bye''"])
    apply (rule exI [of _ "cp ''see you''"])
    apply (simp add: loader_eval)
    done
  have all: "\<forall>raw \<in> set [line_hello @ [10], line_bye @ [10]]. \<exists>kvs p c.
      py_strip raw \<noteq> [] \<and> json_loads_sample (py_strip raw) = Inr (PyDict kvs) \<and>
      map_of kvs (cp ''prompt'') = Some (PyStr p) \<and> p \<noteq> [] \<and>
      \<not> list_ex is_surrogate p \<and>
      map_of kvs (cp ''completion'') = Some (PyStr c) \<and> c \<noteq> [] \<and>
      \<not> list_ex is_surrogate c"
    using e1 e2 by (simp only: list.set ball_simps bex_simps)
  show ?thesis
    using all by (rule valid_lines_give_one_record_each)
qed

text \<open>
  The claim as stated fails: the line \<^verbatim>\<open>{"prompt": "\ud800", "completion": "hi"}\<close> is an object
  with a non-empty prompt and a non-empty completion, and the loader returns no record for
  it: \<^verbatim>\<open>Dataset.from_list\<close> raises \<^verbatim>\<open>UnicodeEncodeError\<close>.
\<close>

theorem surrogate_line_gives_no_dataset:
  "py_strip (line_surrogate @ [10]) \<noteq> [] \<and>
   json_loads_sample (py_strip (line_surrogate @ [10])) =
     Inr (PyDict [(cp ''prompt'', PyStr [55296]), (cp ''completion'', PyStr (cp ''hi''))]) \<and>
   load_dataset json_loads_sample [line_surrogate @ [10]] = Inl UnicodeEncodeError"
  by (simp add: loader_eval)

subsection \<open>Role labels\<close>

text \<open>
  Claim C9. The row the loader makes of an accepted line is the template applied to the
  prompt with the two user labels replaced by the empty string and to the completion with
  the two assistant labels replaced by the empty string. That replacement deletes an
  occurrence wherever it stands in the field, not only at the front: for each of the four
  labels, replacing it in \<open>a @ label @ b\<close> is replacing it in \<open>a\<close> and in \<open>b\<close> and
  dropping the occurrence between them, and a string without the label is left as it is,
  so \<^verbatim>\<open>"say User: hi"\<close> becomes \<^verbatim>\<open>"say hi"\<close>. The removal is specific to the role: the
  prompt keeps an assistant label and the completion keeps a user label, so a prompt that
  holds \<^verbatim>\<open>"Assistant: "\<close> keeps that text.
\<close>

theorem labels_removed_everywhere:
  assumes "py_strip raw \<noteq> []" "L (py_strip raw) = Inr (PyDict kvs)"
    and "map_of kvs (cp ''prompt'') = Some (PyStr p)" "p \<noteq> []"
    and "map_of kvs (cp ''completion'') = Some (PyStr c)" "c \<noteq> []"
  shows "load_dataset L [raw] =
           dataset_from_list
             [chat_text (str_replace label_user_en [] (str_replace label_user_zh [] p))
                (str_replace label_assistant_en [] (str_replace label_assistant_zh [] c))] \<and>
   (str_replace label_user_zh [] (a @ label_user_zh @ b) =
      str_replace label_user_zh [] a @ str_replace label_user_zh [] b) \<and>
   (str_replace label_user_en [] (a @ label_user_en @ b) =
      str_replace label_user_en [] a @ str_replace label_user_en [] b) \<and>
   (str_replace label_assistant_zh [] (a @ label_assistant_zh @ b) =
      str_replace label_assistant_zh [] a @ str_replace label_assistant_zh [] b) \<and>
   (str_replace label_assistant_en [] (a @ label_assistant_en @ b) =
      str_replace label_assistant_en [] a @ str_replace label_assistant_en [] b) \<and>
   (\<not> sublist label_user_zh s \<longrightarrow> str_replace label_user_zh [] s = s) \<and>
   (\<not> sublist label_user_en s \<longrightarrow> str_replace label_user_en [] s = s) \<and>
   (\<not> sublist label_assistant_zh s \<longrightarrow> str_replace label_assistant_zh [] s = s) \<and>
   (\<not> sublist label_assistant_en s \<longrightarrow> str_replace label_assistant_en [] s = s) \<and>
   clean_prompt (a @ label_user_en @ b) = clean_prompt a @ clean_prompt b \<and>
   clean_completion (a @ label_assistant_en @ b) = clean_completion a @ clean_completion b \<and>
   clean_prompt (a @ label_user_zh @ b) =
     str_replace label_user_en []
       (str_replace label_user_zh [] a @ str_replace label_user_zh [] b) \<and>
   clean_completion (a @ label_assistant_zh @ b) =
     str_replace label_assistant_en []
       (str_replace label_assistant_zh [] a @ str_replace label_assistant_zh [] b) \<and>
   clean_prompt (a @ label_assistant_zh @ b) = clean_prompt a @ label_assistant_zh @ clean_prompt b \<and>
   clean_prompt (a @ label_assistant_en @ b) = clean_prompt a @ label_assistant_en @ clean_prompt b \<and>
   clean_completion (a @ label_user_zh @ b) = clean_completion a @ label_user_zh @ clean_completion b \<and>
   clean_completion (a @ label_user_en @ b) = clean_completion a @ label_user_en @ clean_completion b \<and>
   clean_prompt (cp ''say User: hi'') = cp ''say hi'' \<and>
   clean_prompt (cp ''Assistant: hi'') = cp ''Assistant: hi''"
proof -
  have routed: "load_dataset L [raw] =
           dataset_from_list
             [chat_text (str_replace label_user_en [] (str_replace label_user_zh [] p))
                (str_replace label_assistant_en [] (str_replace label_assistant_zh [] c))]"
    using load_dataset_accept [of raw L kvs p c, OF assms]
    by (simp only: clean_prompt_def clean_completion_def)
  have absent:
    "\<not> sublist label_user_zh s \<longrightarrow> str_replace label_user_zh [] s = s"
    "\<not> sublist label_user_en s \<longrightarrow> str_replace label_user_en [] s = s"
    "\<not> sublist label_assistant_zh s \<longrightarrow> str_replace label_assistant_zh [] s = s"
    "\<not> sublist label_assistant_en s \<longrightarrow> str_replace label_assistant_en [] s = s"
    by (simp_all add: str_replace_absent label_defs)
  have ex1: "clean_prompt (cp ''say User: hi'') = cp ''say hi''"
    by (simp add: clean_prompt_def label_defs)
  have ex2: "clean_prompt (cp ''Assistant: hi'') = cp ''Assistant: hi''"
    by (simp add: clean_prompt_def label_defs)
  have laws:
   "(str_replace label_user_zh [] (a @ label_user_zh @ b) =
      str_replace label_user_zh [] a @ str_replace label_user_zh [] b) \<and>
   (str_replace label_user_en [] (a @ label_user_en @ b) =
      str_replace label_user_en [] a @ str_replace label_user_en [] b) \<and>
   (str_replace label_assistant_zh [] (a @ label_assistant_zh @ b) =
      str_replace label_assistant_zh [] a @ str_replace label_assistant_zh [] b) \<and>
   (str_replace label_assistant_en [] (a @ label_assistant_en @ b) =
      str_replace label_assistant_en [] a @ str_replace label_assistant_en [] b)"
    by (simp only: replace_label_occurrence insert_iff simp_thms)
  have comp:
   "clean_prompt (a @ label_user_en @ b) = clean_prompt a @ clean_prompt b \<and>
   clean_completion (a @ label_assistant_en @ b) = clean_completion a @ clean_completion b \<and>
   clean_prompt (a @ label_user_zh @ b) =
     str_replace label_user_en []
       (str_replace label_user_zh [] a @ str_replace label_user_zh [] b) \<and>
   clean_completion (a @ label_assistant_zh @ b) =
     str_replace label_assistant_en []
       (str_replace label_assistant_zh [] a @ str_replace label_assistant_zh [] b) \<and>
   clean_prompt (a @ label_assistant_zh @ b) = clean_prompt a @ label_assistant_zh @ clean_prompt b \<and>
   clean_prompt (a @ label_assistant_en @ b) = clean_prompt a @ label_assistant_en @ clean_prompt b \<and>
   clean_completion (a @ label_user_zh @ b) = clean_completion a @ label_user_zh @ clean_completion b \<and>
   clean_completion (a @ label_user_en @ b) = clean_completion a @ label_user_en @ clean_completion b"
    by (simp only: clean_prompt_en clean_completion_en clean_prompt_zh clean_completion_zh
        clean_prompt_keeps clean_completion_keeps insert_iff simp_thms)
  from routed laws absent comp ex1 ex2 show ?thesis
    by (simp only: simp_thms)
qed

theorem labels_removed_everywhere_witness:
  "load_dataset json_loads_sample [line_say @ [10]] =
     Inr [chat_text (cp ''say hi'') (cp ''ok then'')] \<and>
   load_dataset json_loads_sample [line_quote @ [10]] =
     Inr [chat_text (cp ''Assistant: hi'') (cp ''User: ok'')]"
proof -
  have a1: "py_strip (line_say @ [10]) \<noteq> []"
    and a2: "py_strip (line_quote @ [10]) \<noteq> []"
    by (simp_all add: loader_eval)
  have b1: "json_loads_sample (py_strip (line_say @ [10])) =
      Inr (PyDict [(cp ''prompt'', PyStr (cp ''say User: hi'')),
                   (cp ''completion'', PyStr (cp ''ok Assistant: then''))])"
    by (simp add: loader_eval)
  have b2: "json_loads_sample (py_strip (line_quote @ [10])) =
      Inr (PyDict [(cp ''prompt'', PyStr (cp ''Assistant: hi'')),
                   (cp ''completion'', PyStr (cp ''User: ok''))])"
    by (simp add: loader_eval)
  have c1: "map_of [(cp ''prompt'', PyStr (cp ''say User: hi'')),
                    (cp ''completion'', PyStr (cp ''ok Assistant: then''))] (cp ''prompt'') =
      Some (PyStr (cp ''say User: hi''))"
    and d1: "map_of [(cp ''prompt'', PyStr (cp ''say User: hi'')),
                    (cp ''completion'', PyStr (cp ''ok Assistant: then''))] (cp ''completion'') =
      Some (PyStr (cp ''ok Assistant: then''))"
    and c2: "map_of [(cp ''prompt'', PyStr (cp ''Assistant: hi'')),
                    (cp ''completion'', PyStr (cp ''User: ok''))] (cp ''prompt'') =
      Some (PyStr (cp ''Assistant: hi''))"
    and d2: "map_of [(cp ''prompt'', PyStr (cp ''Assistant: hi'')),
                    (cp ''completion'', PyStr (cp ''User: ok''))] (cp ''completion'') =
      Some (PyStr (cp ''User: ok''))"
    by (simp_all add: cp_def)
  have n: "cp ''say User: hi'' \<noteq> []" "cp ''ok Assistant: then'' \<noteq> []"
    "cp ''Assistant: hi'' \<noteq> []" "cp ''User: ok'' \<noteq> []"
    by (simp_all add: cp_def)
  note h1 = labels_removed_everywhere [of "line_say @ [10]" json_loads_sample
      "[(cp ''prompt'', PyStr (cp ''say User: hi'')),
        (cp ''completion'', PyStr (cp ''ok Assistant: then''))]"
      "cp ''say User: hi''" "cp ''ok Assistant: then''" "[]" "[]" "[]",
      OF a1 b1 c1 n(1) d1 n(2)]
  note h2 = labels_removed_everywhere [of "line_quote @ [10]" json_loads_sample
      "[(cp ''prompt'', PyStr (cp ''Assistant: hi'')),
        (cp ''completion'', PyStr (cp ''User: ok''))]"
      "cp ''Assistant: hi''" "cp ''User: ok''" "[]" "[]" "[]",
      OF a2 b2 c2 n(3) d2 n(4)]
  from h1 have "load_dataset json_loads_sample [line_say @ [10]] =
      dataset_from_list
        [chat_text (str_replace label_user_en [] (str_replace label_user_zh [] (cp ''say User: hi'')))
           (str_replace label_assistant_en []
              (str_replace label_assistant_zh [] (cp ''ok Assistant: then'')))]"
    by blast
  then have l1: "load_dataset json_loads_sample [line_say @ [10]] =
     Inr [chat_text (cp ''say hi'') (cp ''ok then'')]"
    by (simp add: dataset_from_list_def is_surrogate_def chat_text_def label_defs)
  from h2 have "load_dataset json_loads_sample [line_quote @ [10]] =
      dataset_from_list
        [chat_text (str_replace label_user_en [] (str_replace label_user_zh [] (cp ''Assistant: hi'')))
           (str_replace label_assistant_en []
              (str_replace label_assistant_zh [] (cp ''User: ok'')))]"
    by blast
  then have l2: "load_dataset json_loads_sample [line_quote @ [10]] =
     Inr [chat_text (cp ''Assistant: hi'') (cp ''User: ok'')]"
    by (simp add: dataset_from_list_def is_surrogate_def chat_text_def label_defs)
  from l1 l2 show ?thesis by (intro conjI)
qed

subsection \<open>The training setup\<close>

lemma train_setup_small:
  assumes "length ds \<le> 20"
  shows "\<exists>t. train_setup split ds a out = Inr t \<and> tr_train_dataset t = ds \<and>
           tr_eval_dataset t = None \<and> tr_callbacks t = None \<and> ta_eval (tr_args t) = None"
  using assms by (simp add: train_setup_def Let_def)

lemma train_setup_large:
  assumes "length ds > 20" "train_setup split ds a out = Inr t"
  shows "\<exists>tr te. split ds (1 / 10) 42 = Inr (tr, te) \<and> tr_train_dataset t = tr \<and>
           tr_eval_dataset t = Some te \<and>
           tr_callbacks t =
             (if te \<noteq> [] then Some [EarlyStoppingCallback (arg_early_stopping_patience a)] else None) \<and>
           ta_eval (tr_args t) = (if te \<noteq> [] then Some (cp ''steps'', 50, True) else None)"
proof (cases "split ds (1 / 10) 42")
  case (Inl e)
  with assms show ?thesis by (simp add: train_setup_def)
next
  case (Inr p)
  obtain tr te where p: "p = (tr, te)" by (cases p)
  from assms Inr p show ?thesis
    by (cases "te = []") (auto simp add: train_setup_def)
qed

text \<open>
  Claim C5. When \<^verbatim>\<open>train\<close> gets as far as building its trainer, a validation set exists
  exactly when the dataset has more than 20 records; it is then the test part of
  \<^verbatim>\<open>train_test_split(test_size=0.1, seed=42)\<close> and the training set is the train part, while
  with 20 records or fewer the dataset is used whole and the split is not consulted. The
  early-stopping callback is attached exactly when the split was made. The script tests
  \<^verbatim>\<open>if eval_dataset\<close>, which is false for an empty dataset, so the last part rests on the
  library returning a test part that is not empty.
\<close>

theorem split_and_early_stopping_above_20:
  assumes ret: "train_setup split ds a out = Inr t"
    and nonempty: "\<forall>tr te. split ds (1 / 10) 42 = Inr (tr, te) \<longrightarrow> te \<noteq> []"
  shows "(tr_eval_dataset t \<noteq> None \<longleftrightarrow> length ds > 20) \<and>
         (length ds > 20 \<longrightarrow>
            (\<exists>tr te. split ds (1 / 10) 42 = Inr (tr, te) \<and>
                     tr_train_dataset t = tr \<and> tr_eval_dataset t = Some te)) \<and>
         (length ds \<le> 20 \<longrightarrow>
            tr_train_dataset t = ds \<and> (\<forall>split'. train_setup split' ds a out = Inr t)) \<and>
         (tr_callbacks t \<noteq> None \<longleftrightarrow> tr_eval_dataset t \<noteq> None) \<and>
         (tr_callbacks t \<noteq> None \<longrightarrow>
            tr_callbacks t = Some [EarlyStoppingCallback (arg_early_stopping_patience a)])"
proof (cases "length ds > 20")
  case True
  from train_setup_large [OF True ret] obtain tr te where
    s: "split ds (1 / 10) 42 = Inr (tr, te)" "tr_train_dataset t = tr"
       "tr_eval_dataset t = Some te"
       "tr_callbacks t =
         (if te \<noteq> [] then Some [EarlyStoppingCallback (arg_early_stopping_patience a)] else None)"
    by blast
  from nonempty s(1) have "te \<noteq> []" by blast
  with True s show ?thesis by simp
next
  case False
  then have le: "length ds \<le> 20" by simp
  from train_setup_small [OF le, of split a out] ret have
    t: "tr_train_dataset t = ds" "tr_eval_dataset t = None" "tr_callbacks t = None"
    by auto
  have "train_setup split' ds a out = train_setup split ds a out" for split'
    using le by (simp add: train_setup_def Let_def)
  with t le ret show ?thesis by simp
qed

theorem split_and_early_stopping_above_20_witness:
  "(\<exists>t. train_setup split_sample (replicate 21 (chat_text (cp ''hi'') (cp ''hello''))) sample_args
          (cp ''out'') = Inr t \<and>
        tr_eval_dataset t = Some (replicate 3 (chat_text (cp ''hi'') (cp ''hello''))) \<and>
        tr_train_dataset t = replicate 18 (chat_text (cp ''hi'') (cp ''hello'')) \<and>
        tr_callbacks t = Some [EarlyStoppingCallback 3]) \<and>
   (\<exists>t. train_setup split_sample (replicate 20 (chat_text (cp ''hi'') (cp ''hello''))) sample_args
          (cp ''out'') = Inr t \<and>
        tr_eval_dataset t = None \<and>
        tr_train_dataset t = replicate 20 (chat_text (cp ''hi'') (cp ''hello'')) \<and>
        tr_callbacks t = None)"
proof -
  let ?x = "chat_text (cp ''hi'') (cp ''hello'')"
  obtain t21 where r21: "train_setup split_sample (replicate 21 ?x) sample_args (cp ''out'') = Inr t21"
    by (simp add: train_setup_def split_sample_def Let_def)
  obtain t20 where r20: "train_setup split_sample (replicate 20 ?x) sample_args (cp ''out'') = Inr t20"
    by (simp add: train_setup_def split_sample_def Let_def)
  have n21: "\<forall>tr te. split_sample (replicate 21 ?x) (1 / 10) 42 = Inr (tr, te) \<longrightarrow> te \<noteq> []"
    by (auto simp add: split_sample_def)
  have n20: "\<forall>tr te. split_sample (replicate 20 ?x) (1 / 10) 42 = Inr (tr, te) \<longrightarrow> te \<noteq> []"
    by (auto simp add: split_sample_def)
  have s21: "split_sample (replicate 21 ?x) (1 / 10) 42 = Inr (replicate 18 ?x, replicate 3 ?x)"
    by (simp add: split_sample_def)
  from split_and_early_stopping_above_20 [OF r21 n21] s21 have
    "tr_eval_dataset t21 = Some (replicate 3 ?x) \<and> tr_train_dataset t21 = replicate 18 ?x \<and>
     tr_callbacks t21 = Some [EarlyStoppingCallback (arg_early_stopping_patience sample_args)]"
    by auto
  moreover from split_and_early_stopping_above_20 [OF r20 n20] have
    "tr_eval_dataset t20 = None \<and> tr_train_dataset t20 = replicate 20 ?x \<and> tr_callbacks t20 = None"
    by auto
  moreover have "arg_early_stopping_patience sample_args = 3"
    by (simp add: sample_args_def)
  ultimately show ?thesis using r21 r20 by simp
qed


subsection \<open>Steps of the process\<close>

lemma and_then_InrE:
  assumes "and_then m f w = (Inr y, w')"
  obtains x w1 where "m w = (Inr x, w1)" "f x w1 = (Inr y, w')"
  using assms by (auto simp add: and_then_def split: prod.splits sum.splits)



lemma py_print_all_eq: "py_print_all ms w = (Inr (), w\<lparr>printed := printed w @ ms\<rparr>)"
  by (induction ms arbitrary: w) (simp_all add: ret_def and_then_def py_print_def)
















lemma load_from_files:
  assumes "fs_files w2 = fs_files w"
  shows "fst (load_dataset_from e p w2) = Inr ds \<longleftrightarrow> fst (load_dataset_from e p w) = Inr ds"
  using assms
  by (auto simp add: load_dataset_from_def open_read_def and_then_def lift_def py_print_def ret_def
      split: option.splits file_content.splits sum.splits)

lemma makedirs_files:
  "os_makedirs p w = (Inr u, w1) \<Longrightarrow> fs_files w1 = fs_files w"
  by (auto simp add: os_makedirs_def split: if_splits)

text \<open>\<^verbatim>\<open>main\<close> when the data path exists, with its local names written out.\<close>

lemma main_unfold:
  assumes "path_exists w (arg_data a)"
  shows "main e a w =
     and_then (os_makedirs (path_join (arg_output a) (cp ''finetune_'' @ env_now e))) (\<lambda>_.
     and_then (py_print_all [Msg_rule, Msg_title, Msg_rule, Msg_data_file (arg_data a),
                 Msg_output_dir (path_join (arg_output a) (cp ''finetune_'' @ env_now e)),
                 Msg_base_model (arg_model a), Msg_rule]) (\<lambda>_.
     and_then (load_dataset_from e (arg_data a)) (\<lambda>dataset.
       if length dataset = 0 then and_then (py_print Msg_no_valid_data) (\<lambda>_. sys_exit 1)
       else
         and_then (setup_model e (arg_model a)
                     (if env_cuda e then Cuda else if env_mps e then Mps else Cpu)) (\<lambda>_.
         and_then (setup_lora e (arg_lora_r a)) (\<lambda>_.
         and_then (train e dataset a (path_join (arg_output a) (cp ''finetune_'' @ env_now e))) (\<lambda>_.
         and_then (export_model e (path_join (arg_output a) (cp ''finetune_'' @ env_now e))
                     (if arg_export_gguf a then
                        Some (case arg_gguf_output a of
                                Some g \<Rightarrow>
                                  if g \<noteq> [] then g
                                  else path_join (path_join (arg_output a) (cp ''finetune_'' @ env_now e))
                                         (cp ''model.gguf'')
                              | None \<Rightarrow>
                                  path_join (path_join (arg_output a) (cp ''finetune_'' @ env_now e))
                                    (cp ''model.gguf''))
                      else None)) (\<lambda>_.
         and_then (write_json
                     (path_join (path_join (arg_output a) (cp ''finetune_'' @ env_now e))
                        (cp ''config.json''))
                     \<lparr> base_model = arg_model a, timestamp = env_now e, epochs = arg_epochs a,
                       learning_rate = arg_learning_rate a, lora_r = arg_lora_r a,
                       train_samples = length dataset,
                       device = (if env_cuda e then Cuda else if env_mps e then Mps else Cpu) \<rparr>) (\<lambda>_.
         py_print_all [Msg_blank, Msg_rule, Msg_done,
                       Msg_saved_at (path_join (arg_output a) (cp ''finetune_'' @ env_now e)),
                       Msg_rule]))))))))
     w"
  using assms by (simp only: main_def Let_def simp_thms if_False if_True)



lemma train_returns_setup:
  assumes "train e ds a out w = (Inr t, w')"
  shows "\<exists>t0. train_setup (env_split e) ds a out = Inr t0"
proof -
  from assms obtain t0 w1 where "lift (train_setup (env_split e) ds a out) w = (Inr t0, w1)"
    unfolding train_def by (elim and_then_InrE)
  then show ?thesis by (auto simp add: lift_def split: sum.splits)
qed

lemma write_json_files:
  assumes "write_json p c w = (Inr u, w')"
  shows "fs_files w' p = Some (JsonDump c)"
  using assms by (auto simp add: write_json_def split: if_splits)


subsection \<open>Runs on the concrete inputs\<close>

lemma load_hello:
  "load_dataset json_loads_sample [line_hello @ [10]] = Inr [chat_text (cp ''hi'') (cp ''hello'')]"
  by (simp add: loader_eval)


lemmas run_eval = main_def Let_def and_then_def ret_def py_print_def sys_exit_def lift_def lib_def
  path_exists_def os_makedirs_def open_read_def write_json_def
  load_dataset_from_def setup_model_def setup_lora_def train_def train_setup_def
  export_model_def path_join_def ancestors_def upt_rec [of _ "35"] upt_rec [of _ "42"] nth_Cons'
  world_with_def empty_world_def sample_env_def sample_args_def split_sample_def cp_def

lemma run_hello:
  "fst (main sample_env sample_args (world_with [line_hello @ [10]])) = Inr ()"
  by (simp add: run_eval load_hello)


lemma load_replicate:
  assumes "load_dataset L [raw] = Inr [x]"
  shows "load_dataset L (replicate n raw) = Inr (replicate n x)"
proof (induction n)
  case 0
  show ?case by (simp add: load_dataset_Nil)
next
  case (Suc n)
  with assms have "load_dataset L ([raw] @ replicate n raw) = Inr ([x] @ replicate n x)"
    using load_dataset_append_Inr [of L "[raw]" "replicate n raw" "[x] @ replicate n x"] by simp
  then show ?case by simp
qed


subsection \<open>Exits and the metadata file\<close>

text \<open>
  Claim C6. When the \<^verbatim>\<open>--data\<close> path does not exist, \<^verbatim>\<open>main\<close> prints the error message and
  stops with \<^verbatim>\<open>sys.exit(1)\<close>: the exit status is 1, and the world it leaves differs from the
  one it found in the printed message only. No directory is created, no file is written
  and no library is called, since the test stands before \<^verbatim>\<open>os.makedirs\<close>.
\<close>

theorem missing_data_file_exits_before_any_effect:
  assumes "\<not> path_exists w (arg_data a)"
  shows "main e a w =
           (Inl (SysExit 1), w\<lparr>printed := printed w @ [Msg_data_file_missing (arg_data a)]\<rparr>) \<and>
         exit_status (fst (main e a w)) = 1 \<and>
         fs_dirs (snd (main e a w)) = fs_dirs w \<and>
         fs_files (snd (main e a w)) = fs_files w \<and>
         lib_calls (snd (main e a w)) = lib_calls w"
  using assms by (simp add: main_def and_then_def py_print_def sys_exit_def)

theorem missing_data_file_exits_before_any_effect_witness:
  "main sample_env sample_args empty_world =
     (Inl (SysExit 1),
      \<lparr> fs_files = Map.empty, fs_dirs = {},
        printed = [Msg_data_file_missing (cp ''train.jsonl'')], lib_calls = [] \<rparr>) \<and>
   exit_status (fst (main sample_env sample_args empty_world)) = 1 \<and>
   fs_dirs (snd (main sample_env sample_args empty_world)) = {} \<and>
   cp ''./output/finetune_20240101_120000''
     \<in> fs_dirs (snd (main sample_env sample_args (world_with [line_hello @ [10]])))"
proof -
  have made: "cp ''./output/finetune_20240101_120000''
     \<in> fs_dirs (snd (main sample_env sample_args (world_with [line_hello @ [10]])))"
    by (simp add: run_eval load_hello)
  have "\<not> path_exists empty_world (arg_data sample_args)"
    by (simp add: path_exists_def empty_world_def)
  from missing_data_file_exits_before_any_effect [OF this, of sample_env] made show ?thesis
    by (simp add: empty_world_def sample_args_def)
qed





text \<open>
  Claim C10. When \<^verbatim>\<open>main\<close> returns, \<^verbatim>\<open>config.json\<close> in the output directory holds the mapping
  of lines 269 to 277, and its \<^verbatim>\<open>train_samples\<close> is the length of the dataset the loader
  returned. \<^verbatim>\<open>train\<close> built its trainer from that same dataset, whatever the split did:
  with 21 records the trainer trains on 18 and validates on 3, and \<^verbatim>\<open>train_samples\<close> is 21
  (the instance after the theorem).
\<close>

theorem train_samples_counts_whole_dataset:
  assumes "main e a w = (Inr (), w')"
  shows "\<exists>ds t. fst (load_dataset_from e (arg_data a) w) = Inr ds \<and>
           train_setup (env_split e) ds a
             (path_join (arg_output a) (cp ''finetune_'' @ env_now e)) = Inr t \<and>
           fs_files w'
             (path_join (path_join (arg_output a) (cp ''finetune_'' @ env_now e))
                (cp ''config.json'')) =
             Some (JsonDump
               \<lparr> base_model = arg_model a, timestamp = env_now e, epochs = arg_epochs a,
                 learning_rate = arg_learning_rate a, lora_r = arg_lora_r a,
                 train_samples = length ds,
                 device = (if env_cuda e then Cuda else if env_mps e then Mps else Cpu) \<rparr>)"
proof -
  let ?out = "path_join (arg_output a) (cp ''finetune_'' @ env_now e)"
  let ?cfg = "path_join ?out (cp ''config.json'')"
  have ex: "path_exists w (arg_data a)"
  proof (rule ccontr)
    assume "\<not> path_exists w (arg_data a)"
    then have "fst (main e a w) = Inl (SysExit 1)"
      by (simp add: main_def and_then_def py_print_def sys_exit_def)
    with assms show False by simp
  qed
  from assms main_unfold [OF ex, of e] obtain u1 w1 u2 w2 ds w3 where
    s1: "os_makedirs ?out w = (Inr u1, w1)" and
    s2: "py_print_all [Msg_rule, Msg_title, Msg_rule, Msg_data_file (arg_data a),
           Msg_output_dir ?out, Msg_base_model (arg_model a), Msg_rule] w1 = (Inr u2, w2)" and
    s3: "load_dataset_from e (arg_data a) w2 = (Inr ds, w3)" and
    rest: "(if length ds = 0 then and_then (py_print Msg_no_valid_data) (\<lambda>_. sys_exit 1)
       else
         and_then (setup_model e (arg_model a)
                     (if env_cuda e then Cuda else if env_mps e then Mps else Cpu)) (\<lambda>_.
         and_then (setup_lora e (arg_lora_r a)) (\<lambda>_.
         and_then (train e ds a ?out) (\<lambda>_.
         and_then (export_model e ?out
                     (if arg_export_gguf a then
                        Some (case arg_gguf_output a of
                                Some g \<Rightarrow> if g \<noteq> [] then g else path_join ?out (cp ''model.gguf'')
                              | None \<Rightarrow> path_join ?out (cp ''model.gguf''))
                      else None)) (\<lambda>_.
         and_then (write_json ?cfg
                     \<lparr> base_model = arg_model a, timestamp = env_now e, epochs = arg_epochs a,
                       learning_rate = arg_learning_rate a, lora_r = arg_lora_r a,
                       train_samples = length ds,
                       device = (if env_cuda e then Cuda else if env_mps e then Mps else Cpu) \<rparr>) (\<lambda>_.
         py_print_all [Msg_blank, Msg_rule, Msg_done, Msg_saved_at ?out, Msg_rule]))))))
       w3 = (Inr (), w')"
    by (simp only:) (elim and_then_InrE)
  have nonempty: "length ds \<noteq> 0"
  proof
    assume "length ds = 0"
    with rest show False
      by (simp add: and_then_def py_print_def sys_exit_def)
  qed
  with rest obtain u4 w4 u5 w5 t w6 u7 w7 u8 w8 where
    s6: "train e ds a ?out w5 = (Inr t, w6)" and
    s8: "write_json ?cfg
           \<lparr> base_model = arg_model a, timestamp = env_now e, epochs = arg_epochs a,
             learning_rate = arg_learning_rate a, lora_r = arg_lora_r a,
             train_samples = length ds,
             device = (if env_cuda e then Cuda else if env_mps e then Mps else Cpu) \<rparr> w7 =
           (Inr u8, w8)" and
    s9: "py_print_all [Msg_blank, Msg_rule, Msg_done, Msg_saved_at ?out, Msg_rule] w8 = (Inr (), w')"
    by (simp only: if_False) (elim and_then_InrE)
  from s9 have "fs_files w' = fs_files w8"
    by (auto simp add: py_print_all_eq simp del: py_print_all.simps)
  with write_json_files [OF s8] have cfg: "fs_files w' ?cfg = Some (JsonDump
       \<lparr> base_model = arg_model a, timestamp = env_now e, epochs = arg_epochs a,
         learning_rate = arg_learning_rate a, lora_r = arg_lora_r a,
         train_samples = length ds,
         device = (if env_cuda e then Cuda else if env_mps e then Mps else Cpu) \<rparr>)"
    by simp
  from s2 have "fs_files w2 = fs_files w1"
    by (auto simp add: py_print_all_eq simp del: py_print_all.simps)
  with makedirs_files [OF s1] have "fs_files w2 = fs_files w" by simp
  from load_from_files [OF this, of e "arg_data a" ds] s3
  have l: "fst (load_dataset_from e (arg_data a) w) = Inr ds" by simp
  from train_returns_setup [OF s6] obtain t0 where
    "train_setup (env_split e) ds a ?out = Inr t0" by blast
  with l cfg show ?thesis by blast
qed

theorem train_samples_counts_whole_dataset_witness:
  "(\<exists>c. fs_files (snd (main sample_env sample_args (world_with (replicate 21 (line_hello @ [10])))))
          (cp ''./output/finetune_20240101_120000/config.json'') = Some (JsonDump c) \<and>
        train_samples c = 21) \<and>
   (\<exists>t te. train_setup split_sample (replicate 21 (chat_text (cp ''hi'') (cp ''hello''))) sample_args
          (cp ''./output/finetune_20240101_120000'') = Inr t \<and>
        length (tr_train_dataset t) = 18 \<and> tr_eval_dataset t = Some te \<and> length te = 3)"
proof -
  let ?w = "world_with (replicate 21 (line_hello @ [10]))"
  let ?x = "chat_text (cp ''hi'') (cp ''hello'')"
  have l21: "load_dataset json_loads_sample (replicate 21 (line_hello @ [10])) = Inr (replicate 21 ?x)"
    using load_hello by (rule load_replicate)
  have run: "fst (main sample_env sample_args ?w) = Inr ()"
    by (simp add: run_eval l21)
  then have m: "main sample_env sample_args ?w = (Inr (), snd (main sample_env sample_args ?w))"
    by (simp add: prod_eq_iff)
  have ld: "fst (load_dataset_from sample_env (arg_data sample_args) ?w) = Inr (replicate 21 ?x)"
    by (simp add: run_eval l21)
  have p1: "path_join (arg_output sample_args) (cp ''finetune_'' @ env_now sample_env) =
      cp ''./output/finetune_20240101_120000''"
    and p2: "path_join (cp ''./output/finetune_20240101_120000'') (cp ''config.json'') =
      cp ''./output/finetune_20240101_120000/config.json''"
    by (simp_all add: path_join_def sample_args_def sample_env_def cp_def)
  have sp: "env_split sample_env = split_sample"
    by (simp add: sample_env_def)
  from train_samples_counts_whole_dataset [OF m] ld obtain t where
    t: "train_setup split_sample (replicate 21 ?x) sample_args
          (cp ''./output/finetune_20240101_120000'') = Inr t"
    and c: "fs_files (snd (main sample_env sample_args ?w))
          (cp ''./output/finetune_20240101_120000/config.json'') =
        Some (JsonDump
          \<lparr> base_model = arg_model sample_args, timestamp = env_now sample_env,
            epochs = arg_epochs sample_args, learning_rate = arg_learning_rate sample_args,
            lora_r = arg_lora_r sample_args, train_samples = length (replicate 21 ?x),
            device = (if env_cuda sample_env then Cuda
                      else if env_mps sample_env then Mps else Cpu) \<rparr>)"
    by (auto simp only: p1 p2 sp sum.inject)
  from t have "length (tr_train_dataset t) = 18 \<and>
      tr_eval_dataset t = Some (replicate 3 ?x)"
    by (auto simp add: train_setup_def split_sample_def)
  with t c show ?thesis by auto
qed

end
